theory Spec2Isabelle
  imports Main "HOL-Library.Char_ord" "HOL-Library.List_Lexorder"
begin

section \<open>Strings\<close>

text \<open>
  Python strings are modelled as \<open>string\<close> (a list of 8-bit characters); the model
  covers text whose code points are below 256. \<open>lower\<close> is \<open>str.lower\<close> and
  \<open>strip\<close> is \<open>str.strip\<close> on that range.
\<close>

definition bt :: char where
  "bt = CHR 0x60"

definition lower_char :: "char \<Rightarrow> char" where
  "lower_char c =
     (let n = (of_char c :: nat)
      in if (65 \<le> n \<and> n \<le> 90) \<or> (192 \<le> n \<and> n \<le> 222 \<and> n \<noteq> 215)
         then char_of (n + 32) else c)"

definition lower :: "string \<Rightarrow> string" where
  "lower s = map lower_char s"

definition is_space :: "char \<Rightarrow> bool" where
  "is_space c =
     (let n = (of_char c :: nat)
      in (9 \<le> n \<and> n \<le> 13) \<or> (28 \<le> n \<and> n \<le> 32) \<or> n = 133 \<or> n = 160)"

definition strip :: "string \<Rightarrow> string" where
  "strip s = rev (dropWhile is_space (rev (dropWhile is_space s)))"

definition startswith :: "string \<Rightarrow> string \<Rightarrow> bool" where
  "startswith s p = (take (length p) s = p)"

fun contains :: "string \<Rightarrow> string \<Rightarrow> bool" where
  "contains [] p = (p = [])"
| "contains (c # cs) p = (startswith (c # cs) p \<or> contains cs p)"

section \<open>Source extractors\<close>

subsection \<open>Proxy routers: \<open>extract_hosts_from_traefik\<close>\<close>

record router_config =
  entryPoints :: "string list"
  rule :: string

text \<open>
  What \<open>requests.get\<close> of a URL followed by \<open>raise_for_status\<close> and
  \<open>json()\<close> gives: either an exception (any of the three), or the document's
  \<open>routers\<close> mapping as the list of its items, with the defaults of
  \<open>router_config.get\<close> (no entry points, empty rule) filled in.
\<close>

datatype traefik_response = FetchFailed | RawData "(string \<times> router_config) list"

text \<open>
  \<open>re.search(r"Host\(`([^`]+)`\)", rule)\<close>: \<open>host_match_at\<close> matches the expression
  at the start of a string, \<open>re_search_host\<close> tries every start position from the left
  and returns group 1 of the first match.
\<close>

definition host_match_at :: "string \<Rightarrow> string option" where
  "host_match_at s =
     (if take 6 s = ''Host('' @ [bt] then
        (let r = drop 6 s;
             hostname = takeWhile (\<lambda>c. c \<noteq> bt) r;
             rest = dropWhile (\<lambda>c. c \<noteq> bt) r
         in if hostname \<noteq> [] \<and> take 2 rest = [bt] @ '')'' then Some hostname else None)
      else None)"

fun re_search_host :: "string \<Rightarrow> string option" where
  "re_search_host [] = None"
| "re_search_host (c # cs) =
     (case host_match_at (c # cs) of
        Some hostname \<Rightarrow> Some hostname
      | None \<Rightarrow> re_search_host cs)"

definition collect_hosts :: "(string \<times> router_config) list \<Rightarrow> string set" where
  "collect_hosts routers =
     fold (\<lambda>(router_name, router_config) hosts.
             if ''https'' \<in> set (entryPoints router_config) then
               (case re_search_host (rule router_config) of
                  Some hostname \<Rightarrow> insert (''https://'' @ hostname) hosts
                | None \<Rightarrow> hosts)
             else hosts)
          routers {}"

definition extract_hosts_from_traefik ::
    "(string \<Rightarrow> traefik_response) \<Rightarrow> string \<Rightarrow> string list" where
  "extract_hosts_from_traefik net traefik_url =
     (case net (traefik_url @ ''/api/rawdata'') of
        RawData routers \<Rightarrow> sorted_list_of_set (collect_hosts routers)
      | FetchFailed \<Rightarrow> [])"

text \<open>
  The specification's wording of the rule: the rule contains the text
  \<open>Host(`name`)\<close> at offset \<open>i\<close>, with a non-empty name free of backticks; the name
  taken is the one at the leftmost such offset.
\<close>

definition host_pattern_at :: "string \<Rightarrow> nat \<Rightarrow> string \<Rightarrow> bool" where
  "host_pattern_at r i name \<longleftrightarrow>
     i \<le> length r \<and> name \<noteq> [] \<and> bt \<notin> set name \<and>
     (\<exists>suf. drop i r = ''Host('' @ [bt] @ name @ [bt] @ '')'' @ suf)"

definition first_host_pattern :: "string \<Rightarrow> string \<Rightarrow> bool" where
  "first_host_pattern r name \<longleftrightarrow>
     (\<exists>i. host_pattern_at r i name \<and> (\<forall>j n. host_pattern_at r j n \<longrightarrow> i \<le> j))"


subsection \<open>Container runtime: \<open>extract_containers_from_docker\<close>\<close>

text \<open>
  The answer of the runtime to a \<open>GET\<close>: an exception, or one \<open>Names\<close> list per
  container (empty when the key is absent).
\<close>

datatype docker_response = DockerFailed | Containers "string list list"

fun replace :: "string \<Rightarrow> string \<Rightarrow> string \<Rightarrow> string" where
  "replace [] old new = []"
| "replace (c # cs) old new =
     (if old \<noteq> [] \<and> startswith (c # cs) old
      then new @ replace (drop (length old - 1) cs) old new
      else c # replace cs old new)"

definition lstrip_char :: "char \<Rightarrow> string \<Rightarrow> string" where
  "lstrip_char ch s = dropWhile (\<lambda>c. c = ch) s"

definition container_names_of :: "string list list \<Rightarrow> string list" where
  "container_names_of containers =
     concat (map (\<lambda>names. case names of [] \<Rightarrow> [] | n # _ \<Rightarrow> [lstrip_char CHR ''/'' n])
                 containers)"

definition extract_containers_from_docker ::
    "(string \<Rightarrow> docker_response) \<Rightarrow> string \<Rightarrow> string list" where
  "extract_containers_from_docker net docker_url =
     (let api_url = replace docker_url ''tcp://'' ''http://''
      in case net (api_url @ ''/containers/json'') of
           Containers containers \<Rightarrow> sort (container_names_of containers)
         | DockerFailed \<Rightarrow> [])"

section \<open>Ignore patterns: \<open>should_ignore\<close>\<close>

text \<open>
  \<open>urlparse(url).netloc\<close> is the library's: it returns the network location of
  \<open>url\<close> or raises \<open>ValueError\<close>. It is a parameter of the model, a function
  \<open>urlparse_netloc\<close> from the URL to \<open>Inr\<close> of the network location or \<open>Inl\<close> of the
  message of the \<open>ValueError\<close>; every property below that is not a concrete run
  holds for any such function.

  \<open>plain_netloc\<close> is what the concrete runs use. It follows the steps of the
  library's \<open>urlsplit\<close>: leading control characters and spaces are stripped; tab,
  carriage return and line feed are removed; the scheme is split off at the first
  colon when the text before it is a well-formed scheme; the network location is what
  follows \<open>//\<close> up to the first \<open>/\<close>, \<open>?\<close> or \<open>#\<close>; a network location with a
  bracket raises \<open>ValueError\<close>. The library raises for an unmatched bracket and
  hands a matched pair on to its address validation, which is not reproduced here: the
  URLs of the concrete runs contain no bracket.
\<close>

definition is_ascii_alpha :: "char \<Rightarrow> bool" where
  "is_ascii_alpha c =
     (let n = (of_char c :: nat) in (65 \<le> n \<and> n \<le> 90) \<or> (97 \<le> n \<and> n \<le> 122))"

definition is_scheme_char :: "char \<Rightarrow> bool" where
  "is_scheme_char c =
     (let n = (of_char c :: nat)
      in is_ascii_alpha c \<or> (48 \<le> n \<and> n \<le> 57) \<or> c = CHR ''+'' \<or> c = CHR ''-'' \<or> c = CHR ''.'')"

definition is_c0_control_or_space :: "char \<Rightarrow> bool" where
  "is_c0_control_or_space c = ((of_char c :: nat) \<le> 32)"

definition is_unsafe_url_byte :: "char \<Rightarrow> bool" where
  "is_unsafe_url_byte c = (c = CHR 0x09 \<or> c = CHR 0x0D \<or> c = CHR 0x0A)"

definition plain_netloc :: "string \<Rightarrow> string + string" where
  "plain_netloc url =
     (let url = dropWhile is_c0_control_or_space url;
          url = filter (\<lambda>c. \<not> is_unsafe_url_byte c) url;
          scheme = takeWhile (\<lambda>c. c \<noteq> CHR '':'') url;
          rest = (if length scheme < length url \<and> scheme \<noteq> [] \<and> is_ascii_alpha (hd url)
                     \<and> list_all is_scheme_char scheme
                  then drop (length scheme + 1) url else url)
      in if take 2 rest = ''//''
         then (let netloc = takeWhile (\<lambda>c. c \<noteq> CHR ''/'' \<and> c \<noteq> CHR ''?'' \<and> c \<noteq> CHR ''#'')
                                      (drop 2 rest)
               in if CHR ''['' \<in> set netloc \<or> CHR '']'' \<in> set netloc
                  then Inl ''Invalid IPv6 URL''
                  else Inr netloc)
         else Inr [])"

text \<open>
  \<open>fnmatch\<close> is the library's glob matcher \<open>fnmatch(name, pattern)\<close>; it is a
  parameter of the model. \<open>glob\<close> below is that matcher for patterns built from
  literal characters, \<open>*\<close> and \<open>?\<close>, and is what the concrete runs use. It reads
  \<open>[\<close> as a literal character, which the library does only when no \<open>]\<close> closes
  the bracket: the patterns of the concrete runs contain no bracket.
\<close>

fun glob :: "string \<Rightarrow> string \<Rightarrow> bool" where
  "glob [] [] = True"
| "glob (c # cs) [] = False"
| "glob [] (p # ps) = (p = CHR ''*'' \<and> glob [] ps)"
| "glob (c # cs) (p # ps) =
     (if p = CHR ''*'' then glob (c # cs) ps \<or> glob cs (p # ps)
      else (p = CHR ''?'' \<or> p = c) \<and> glob cs ps)"

primrec any_pattern_matches ::
    "(string \<Rightarrow> string \<Rightarrow> bool) \<Rightarrow> string \<Rightarrow> string \<Rightarrow> string list \<Rightarrow> bool" where
  "any_pattern_matches fnmatch hostname url [] = False"
| "any_pattern_matches fnmatch hostname url (pattern # patterns) =
     (let pattern = strip pattern
      in if pattern = [] then any_pattern_matches fnmatch hostname url patterns
         else if fnmatch (lower hostname) (lower pattern) \<or> fnmatch (lower url) (lower pattern)
              then True
              else any_pattern_matches fnmatch hostname url patterns)"

text \<open>
  The result of \<open>should_ignore\<close> is \<open>Inr\<close> of the returned truth value, or \<open>Inl\<close> of
  the message of the \<open>ValueError\<close> that \<open>urlparse\<close> raised: the network location is
  computed before the loop over the patterns, and nothing in the function catches.
\<close>

definition should_ignore ::
    "(string \<Rightarrow> string \<Rightarrow> bool) \<Rightarrow> (string \<Rightarrow> string + string) \<Rightarrow> string \<Rightarrow>
     string list \<Rightarrow> string + bool" where
  "should_ignore fnmatch urlparse_netloc url ignore_patterns =
     (if ignore_patterns = [] then Inr False
      else (case (if startswith url ''http://'' \<or> startswith url ''https://''
                  then urlparse_netloc url else Inr url) of
              Inl e \<Rightarrow> Inl e
            | Inr hostname \<Rightarrow> Inr (any_pattern_matches fnmatch hostname url ignore_patterns)))"


section \<open>The monitoring service and its session\<close>

datatype monitor_type = HTTP | DOCKER | OTHER

record monitor_tag =
  mt_tag_id :: nat
  mt_value :: string

record monitor =
  m_id :: nat
  m_name :: string
  m_url :: string
  m_type :: monitor_type
  m_docker_host :: "nat option"
  m_tags :: "monitor_tag list"

record tag =
  t_id :: nat
  t_name :: string
  t_color :: string

record docker_host =
  dh_id :: nat
  dh_name :: string

text \<open>The keyword arguments of \<open>api.add_monitor\<close>, as the two call sites build them.\<close>

datatype monitor_config =
    HttpConfig (c_name: string) (c_url: string) (c_method: string) (c_interval: nat)
      (c_retryInterval: nat) (c_maxretries: nat) (c_accepted_statuscodes: "string list")
      (c_maxredirects: nat) (c_timeout: nat)
  | DockerConfig (c_name: string) (c_docker_container: string) (c_docker_host: "nat option")

text \<open>Every request the engine sends, in the order sent, is recorded as a \<open>call\<close>.\<close>

datatype call =
    UptimeKumaApi
  | Login
  | Disconnect
  | SioConnect
  | GetMonitors
  | GetTags
  | GetDockerHosts
  | AddTag string string
  | AddMonitorTag "nat option" nat string
  | DeleteMonitorTag nat nat string
  | AddMonitor monitor_config
  | DeleteMonitor nat

text \<open>
  The lines the program prints when something fails or is given up, and its closing
  summary; progress lines are not modelled.
\<close>

datatype message =
    TagWarning string string
  | DockerHostNotFound string
  | DockerHostsWarning string
  | AddTagWarning "nat option" string
  | DisconnectNote string
  | ReauthFailed string
  | Removed nat
  | RemoveFailed nat string
  | NoTraefikTag
  | RemoveTagFailedAfterReauth string
  | RemoveTagWarning string
  | Created "nat option"
  | CreateFailed string
  | DockerHostMissing string
  | SyncComplete nat
  | FatalError string

text \<open>
  The world outside the engine: the service's inventory, the script of failures the
  next requests will meet (\<open>Some e\<close>: the request raises an exception with message
  \<open>e\<close> and changes nothing; \<open>None\<close>, or an exhausted script: it succeeds), the
  requests sent so far and the lines printed so far.
\<close>

record world =
  srv_monitors :: "monitor list"
  srv_tags :: "tag list"
  srv_docker_hosts :: "docker_host list"
  srv_next_id :: nat
  faults :: "string option list"
  trace :: "call list"
  printed :: "message list"

text \<open>
  A computation ends normally (\<open>Done\<close>), with a Python \<open>Exception\<close> carrying a
  message (\<open>Raised\<close>), or with \<open>sys.exit\<close> (\<open>Exit\<close>, which \<open>except Exception\<close>
  does not catch).
\<close>

datatype 'a outcome = Done 'a | Raised string | Exit nat

type_synonym 'a prog = "world \<Rightarrow> 'a outcome \<times> world"

definition ret :: "'a \<Rightarrow> 'a prog" where
  "ret x w = (Done x, w)"

definition bnd :: "'a prog \<Rightarrow> ('a \<Rightarrow> 'b prog) \<Rightarrow> 'b prog" where
  "bnd m f w =
     (case m w of
        (Done x, w') \<Rightarrow> f x w'
      | (Raised e, w') \<Rightarrow> (Raised e, w')
      | (Exit n, w') \<Rightarrow> (Exit n, w'))"

definition thn :: "'a prog \<Rightarrow> 'b prog \<Rightarrow> 'b prog" where
  "thn m n = bnd m (\<lambda>_. n)"

definition try_except :: "'a prog \<Rightarrow> (string \<Rightarrow> 'a prog) \<Rightarrow> 'a prog" where
  "try_except m handler w =
     (case m w of
        (Raised e, w') \<Rightarrow> handler e w'
      | (Done x, w') \<Rightarrow> (Done x, w')
      | (Exit n, w') \<Rightarrow> (Exit n, w'))"

definition try_finally :: "'a prog \<Rightarrow> unit prog \<Rightarrow> 'a prog" where
  "try_finally m cleanup w =
     (case m w of (r, w') \<Rightarrow>
        (case cleanup w' of
           (Done _, w'') \<Rightarrow> (r, w'')
         | (Raised e, w'') \<Rightarrow> (Raised e, w'')
         | (Exit n, w'') \<Rightarrow> (Exit n, w'')))"

definition sys_exit :: "nat \<Rightarrow> 'a prog" where
  "sys_exit n w = (Exit n, w)"

definition raise :: "string \<Rightarrow> 'a prog" where
  "raise e w = (Raised e, w)"

definition print_msg :: "message \<Rightarrow> unit prog" where
  "print_msg msg w = (Done (), w\<lparr>printed := printed w @ [msg]\<rparr>)"

primrec for_each :: "'a list \<Rightarrow> ('a \<Rightarrow> 's \<Rightarrow> 's prog) \<Rightarrow> 's \<Rightarrow> 's prog" where
  "for_each [] body s = ret s"
| "for_each (x # xs) body s = bnd (body x s) (for_each xs body)"

subsection \<open>Requests\<close>

definition api_call :: "call \<Rightarrow> (world \<Rightarrow> 'a \<times> world) \<Rightarrow> 'a prog" where
  "api_call c effect w =
     (let w1 = w\<lparr>trace := trace w @ [c]\<rparr>
      in case faults w1 of
           Some e # fs \<Rightarrow> (Raised e, w1\<lparr>faults := fs\<rparr>)
         | None # fs \<Rightarrow> (case effect (w1\<lparr>faults := fs\<rparr>) of (r, w2) \<Rightarrow> (Done r, w2))
         | [] \<Rightarrow> (case effect w1 of (r, w2) \<Rightarrow> (Done r, w2)))"

definition new_api :: "unit prog" where
  "new_api = api_call UptimeKumaApi (\<lambda>w. ((), w))"

definition login :: "unit prog" where
  "login = api_call Login (\<lambda>w. ((), w))"

definition disconnect :: "unit prog" where
  "disconnect = api_call Disconnect (\<lambda>w. ((), w))"

definition sio_connect :: "unit prog" where
  "sio_connect = api_call SioConnect (\<lambda>w. ((), w))"

definition get_monitors :: "monitor list prog" where
  "get_monitors = api_call GetMonitors (\<lambda>w. (srv_monitors w, w))"

definition get_tags :: "tag list prog" where
  "get_tags = api_call GetTags (\<lambda>w. (srv_tags w, w))"

definition get_docker_hosts :: "docker_host list prog" where
  "get_docker_hosts = api_call GetDockerHosts (\<lambda>w. (srv_docker_hosts w, w))"

definition add_tag :: "string \<Rightarrow> string \<Rightarrow> tag prog" where
  "add_tag name color =
     api_call (AddTag name color)
       (\<lambda>w. let t = \<lparr>t_id = srv_next_id w, t_name = name, t_color = color\<rparr>
            in (t, w\<lparr>srv_tags := srv_tags w @ [t], srv_next_id := Suc (srv_next_id w)\<rparr>))"

definition add_monitor_tag :: "nat option \<Rightarrow> nat \<Rightarrow> string \<Rightarrow> unit prog" where
  "add_monitor_tag tag_id monitor_id val =
     api_call (AddMonitorTag tag_id monitor_id val)
       (\<lambda>w. ((), case tag_id of
                    None \<Rightarrow> w
                  | Some t \<Rightarrow>
                      w\<lparr>srv_monitors :=
                          map (\<lambda>m. if m_id m = monitor_id
                                    then m\<lparr>m_tags := m_tags m @ [\<lparr>mt_tag_id = t, mt_value = val\<rparr>]\<rparr>
                                    else m)
                              (srv_monitors w)\<rparr>))"

definition delete_monitor_tag :: "nat \<Rightarrow> nat \<Rightarrow> string \<Rightarrow> unit prog" where
  "delete_monitor_tag tag_id monitor_id val =
     api_call (DeleteMonitorTag tag_id monitor_id val)
       (\<lambda>w. ((), w\<lparr>srv_monitors :=
                     map (\<lambda>m. if m_id m = monitor_id
                               then m\<lparr>m_tags := filter (\<lambda>t. \<not> (mt_tag_id t = tag_id \<and> mt_value t = val))
                                                        (m_tags m)\<rparr>
                               else m)
                         (srv_monitors w)\<rparr>))"

definition monitor_of_config :: "nat \<Rightarrow> monitor_config \<Rightarrow> monitor" where
  "monitor_of_config i cfg =
     (case cfg of
        HttpConfig name url _ _ _ _ _ _ _ \<Rightarrow>
          \<lparr>m_id = i, m_name = name, m_url = url, m_type = HTTP, m_docker_host = None,
           m_tags = []\<rparr>
      | DockerConfig name container host \<Rightarrow>
          \<lparr>m_id = i, m_name = name, m_url = [], m_type = DOCKER, m_docker_host = host,
           m_tags = []\<rparr>)"

definition add_monitor :: "monitor_config \<Rightarrow> nat option prog" where
  "add_monitor cfg =
     api_call (AddMonitor cfg)
       (\<lambda>w. (Some (srv_next_id w),
              w\<lparr>srv_monitors := srv_monitors w @ [monitor_of_config (srv_next_id w) cfg],
                srv_next_id := Suc (srv_next_id w)\<rparr>))"

definition delete_monitor :: "nat \<Rightarrow> unit prog" where
  "delete_monitor monitor_id =
     api_call (DeleteMonitor monitor_id)
       (\<lambda>w. ((), w\<lparr>srv_monitors := filter (\<lambda>m. m_id m \<noteq> monitor_id) (srv_monitors w)\<rparr>))"


section \<open>The engine\<close>

definition is_auth_error :: "string \<Rightarrow> bool" where
  "is_auth_error e =
     (let error_msg = lower e
      in contains error_msg ''not logged in'' \<or> contains error_msg ''unauthorized'')"

text \<open>Python truth of an identifier: \<open>None\<close> and \<open>0\<close> are false.\<close>

definition truthy :: "nat option \<Rightarrow> bool" where
  "truthy i = (case i of None \<Rightarrow> False | Some n \<Rightarrow> n \<noteq> 0)"

definition ensure_authenticated :: "unit prog" where
  "ensure_authenticated =
     thn (try_except disconnect (\<lambda>e. print_msg (DisconnectNote e)))
         (try_except (thn sio_connect login)
            (\<lambda>e. thn (print_msg (ReauthFailed e)) (sys_exit 1)))"

subsection \<open>\<open>get_or_create_tag\<close>\<close>

text \<open>
  The \<open>try\<close> block of one attempt: look the name up in the full listing, create the
  tag when it is absent. The handler retries after a re-authentication when the
  failure is an expired session, this is not the last attempt and a re-authentication
  function was given; otherwise it prints the warning and returns \<open>None\<close>.
\<close>

definition lookup_or_create_tag :: "string \<Rightarrow> nat option prog" where
  "lookup_or_create_tag tag_name =
     bnd get_tags (\<lambda>tags.
       case find (\<lambda>tag. t_name tag = tag_name) tags of
         Some tag \<Rightarrow> ret (Some (t_id tag))
       | None \<Rightarrow> bnd (add_tag tag_name ''#4299e1'') (\<lambda>new_tag. ret (Some (t_id new_tag))))"

primrec tag_attempts ::
    "nat \<Rightarrow> string \<Rightarrow> unit prog option \<Rightarrow> nat list \<Rightarrow> nat option prog" where
  "tag_attempts max_retries tag_name ensure_auth_fn [] = ret None"
| "tag_attempts max_retries tag_name ensure_auth_fn (attempt # rest) =
     try_except
       (lookup_or_create_tag tag_name)
       (\<lambda>e. case (if is_auth_error e \<and> attempt < max_retries - 1 then ensure_auth_fn else None) of
               Some ensure_auth \<Rightarrow>
                 thn ensure_auth (tag_attempts max_retries tag_name ensure_auth_fn rest)
             | None \<Rightarrow> thn (print_msg (TagWarning tag_name e)) (ret None))"

definition get_or_create_tag :: "string \<Rightarrow> unit prog option \<Rightarrow> nat option prog" where
  "get_or_create_tag tag_name ensure_auth_fn =
     (let max_retries = 2
      in tag_attempts max_retries tag_name ensure_auth_fn [0..<max_retries])"

subsection \<open>\<open>get_docker_host_id\<close>\<close>

definition lookup_docker_host :: "string \<Rightarrow> nat option prog" where
  "lookup_docker_host docker_host_name =
     bnd get_docker_hosts (\<lambda>docker_hosts.
       case find (\<lambda>host. dh_name host = docker_host_name) docker_hosts of
         Some host \<Rightarrow> ret (Some (dh_id host))
       | None \<Rightarrow> thn (print_msg (DockerHostNotFound docker_host_name)) (ret None))"

primrec docker_host_attempts ::
    "nat \<Rightarrow> string \<Rightarrow> unit prog option \<Rightarrow> nat list \<Rightarrow> nat option prog" where
  "docker_host_attempts max_retries docker_host_name ensure_auth_fn [] = ret None"
| "docker_host_attempts max_retries docker_host_name ensure_auth_fn (attempt # rest) =
     try_except
       (lookup_docker_host docker_host_name)
       (\<lambda>e. case (if is_auth_error e \<and> attempt < max_retries - 1 then ensure_auth_fn else None) of
               Some ensure_auth \<Rightarrow>
                 thn ensure_auth
                     (docker_host_attempts max_retries docker_host_name ensure_auth_fn rest)
             | None \<Rightarrow> thn (print_msg (DockerHostsWarning e)) (ret None))"

definition get_docker_host_id :: "string \<Rightarrow> unit prog option \<Rightarrow> nat option prog" where
  "get_docker_host_id docker_host_name ensure_auth_fn =
     (let max_retries = 2
      in docker_host_attempts max_retries docker_host_name ensure_auth_fn [0..<max_retries])"

subsection \<open>\<open>add_tags_to_monitor\<close>\<close>

primrec add_tag_attempts ::
    "nat \<Rightarrow> nat \<Rightarrow> nat option \<Rightarrow> unit prog option \<Rightarrow> nat list \<Rightarrow> unit prog" where
  "add_tag_attempts max_retries monitor_id tag_id ensure_auth_fn [] = ret ()"
| "add_tag_attempts max_retries monitor_id tag_id ensure_auth_fn (attempt # rest) =
     try_except
       (add_monitor_tag tag_id monitor_id [])
       (\<lambda>e. case (if is_auth_error e \<and> attempt < max_retries - 1 then ensure_auth_fn else None) of
               Some ensure_auth \<Rightarrow>
                 thn ensure_auth
                     (add_tag_attempts max_retries monitor_id tag_id ensure_auth_fn rest)
             | None \<Rightarrow>
                 (if attempt = max_retries - 1 then print_msg (AddTagWarning tag_id e)
                  else ret ()))"

definition add_tags_to_monitor ::
    "nat \<Rightarrow> nat option list \<Rightarrow> unit prog option \<Rightarrow> unit prog" where
  "add_tags_to_monitor monitor_id tag_ids ensure_auth_fn =
     for_each tag_ids
       (\<lambda>tag_id _.
          if \<not> truthy tag_id then ret ()
          else (let max_retries = 2
                in add_tag_attempts max_retries monitor_id tag_id ensure_auth_fn
                     [0..<max_retries]))
       ()"


subsection \<open>\<open>sync_monitors\<close>: tags of an existing monitor\<close>

text \<open>
  The removal loop of the reset mode: one tag, at most \<open>max_retries\<close> attempts; the
  result is the flag \<open>failed\<close>.
\<close>

primrec remove_tag_attempts ::
    "nat \<Rightarrow> nat \<Rightarrow> monitor_tag \<Rightarrow> nat list \<Rightarrow> bool \<Rightarrow> bool prog" where
  "remove_tag_attempts max_retries monitor_id tag [] failed = ret failed"
| "remove_tag_attempts max_retries monitor_id tag (attempt # rest) failed =
     try_except
       (thn (delete_monitor_tag (mt_tag_id tag) monitor_id (mt_value tag)) (ret failed))
       (\<lambda>e. if is_auth_error e then
               (if attempt < max_retries - 1
                then thn ensure_authenticated
                         (remove_tag_attempts max_retries monitor_id tag rest failed)
                else thn (print_msg (RemoveTagFailedAfterReauth e)) (ret True))
             else thn (print_msg (RemoveTagWarning e)) (ret True))"

definition remove_all_tags :: "nat \<Rightarrow> monitor_tag list \<Rightarrow> bool prog" where
  "remove_all_tags monitor_id monitor_tags =
     for_each monitor_tags
       (\<lambda>tag failed.
          (let max_retries = 2
           in remove_tag_attempts max_retries monitor_id tag [0..<max_retries] failed))
       False"

text \<open>
  The body run for a monitor found for a desired identifier (the same text in the
  proxy and in the container part of \<open>sync_monitors\<close>, with the \<open>traefik\<close> or the
  \<open>docker\<close> tag as \<open>kind_tag_id\<close>); the result is the new \<open>tags_updated\<close>.
\<close>

definition update_monitor_tags ::
    "bool \<Rightarrow> monitor \<Rightarrow> nat option \<Rightarrow> nat option \<Rightarrow> nat \<Rightarrow> nat prog" where
  "update_monitor_tags reset_tags monitor_to_check tag_id kind_tag_id tags_updated =
     (let monitor_id = m_id monitor_to_check;
          monitor_tags = m_tags monitor_to_check
      in if reset_tags then
           (if length monitor_tags > 0 then
              bnd (remove_all_tags monitor_id monitor_tags) (\<lambda>failed.
                if \<not> failed then
                  thn (add_tags_to_monitor monitor_id [tag_id, kind_tag_id]
                         (Some ensure_authenticated))
                      (ret (tags_updated + 1))
                else ret tags_updated)
            else
              thn (add_tags_to_monitor monitor_id [tag_id, kind_tag_id]
                     (Some ensure_authenticated))
                  (ret (tags_updated + 1)))
         else
           (let has_group_tag = (\<exists>tag \<in> set monitor_tags. Some (mt_tag_id tag) = tag_id);
                has_kind_tag = (\<exists>tag \<in> set monitor_tags. Some (mt_tag_id tag) = kind_tag_id);
                tags_to_add = (if \<not> has_group_tag \<and> truthy tag_id then [tag_id] else [])
                              @ (if \<not> has_kind_tag \<and> truthy kind_tag_id then [kind_tag_id] else [])
            in if tags_to_add \<noteq> [] then
                 thn (add_tags_to_monitor monitor_id tags_to_add (Some ensure_authenticated))
                     (ret (tags_updated + 1))
               else ret tags_updated))"

subsection \<open>\<open>sync_monitors\<close>: pruning\<close>

text \<open>
  The selection loop (lines 222 to 229): \<open>Inr\<close> of the monitors selected, in the
  order of the listing, or \<open>Inl\<close> of the message of the \<open>ValueError\<close> that the first
  call of \<open>should_ignore\<close> to raise let through. The loop has no handler, so such an
  error leaves it before any deletion is requested.
\<close>

primrec monitors_to_remove ::
    "(string \<Rightarrow> string \<Rightarrow> bool) \<Rightarrow> (string \<Rightarrow> string + string) \<Rightarrow> string list \<Rightarrow>
     monitor list \<Rightarrow> string + monitor list" where
  "monitors_to_remove fnmatch urlparse_netloc ignore_patterns [] = Inr []"
| "monitors_to_remove fnmatch urlparse_netloc ignore_patterns (monitor # monitors) =
     (if m_url monitor \<noteq> [] then
        (case should_ignore fnmatch urlparse_netloc (m_url monitor) ignore_patterns of
           Inl e \<Rightarrow> Inl e
         | Inr ignored \<Rightarrow>
             (case monitors_to_remove fnmatch urlparse_netloc ignore_patterns monitors of
                Inl e \<Rightarrow> Inl e
              | Inr to_remove \<Rightarrow> Inr (if ignored then monitor # to_remove else to_remove)))
      else monitors_to_remove fnmatch urlparse_netloc ignore_patterns monitors)"

definition prune ::
    "(string \<Rightarrow> string \<Rightarrow> bool) \<Rightarrow> (string \<Rightarrow> string + string) \<Rightarrow> string list \<Rightarrow>
     monitor list \<Rightarrow> monitor list prog" where
  "prune fnmatch urlparse_netloc ignore_patterns monitors =
     (if ignore_patterns \<noteq> [] then
        (case monitors_to_remove fnmatch urlparse_netloc ignore_patterns monitors of
           Inl e \<Rightarrow> raise e
         | Inr to_remove \<Rightarrow>
             if to_remove \<noteq> [] then
               thn (for_each to_remove
                      (\<lambda>monitor total_removed.
                         try_except
                           (thn (delete_monitor (m_id monitor))
                                (thn (print_msg (Removed (m_id monitor)))
                                     (ret (total_removed + 1))))
                           (\<lambda>e. thn (print_msg (RemoveFailed (m_id monitor) e))
                                    (ret total_removed)))
                      (0::nat))
                   get_monitors
             else ret monitors)
      else ret monitors)"

definition existing_urls_of :: "monitor list \<Rightarrow> string set" where
  "existing_urls_of monitors =
     fold (\<lambda>monitor existing_urls.
             if m_url monitor \<noteq> [] then insert (m_url monitor) existing_urls
             else existing_urls)
          monitors {}"

subsection \<open>\<open>sync_monitors\<close>: one proxy group\<close>

record source_group =
  g_url :: string
  g_group :: string

record environment =
  fnmatch_fn :: "string \<Rightarrow> string \<Rightarrow> bool"
  netloc_fn :: "string \<Rightarrow> string + string"
  traefik_net :: "string \<Rightarrow> traefik_response"
  docker_net :: "string \<Rightarrow> docker_response"

text \<open>
  The filter loop (lines 282 to 290): \<open>Inr\<close> of the hosts kept, or \<open>Inl\<close> of the
  message of the \<open>ValueError\<close> that the first call of \<open>should_ignore\<close> to raise let
  through.
\<close>

primrec filter_hosts ::
    "(string \<Rightarrow> string \<Rightarrow> bool) \<Rightarrow> (string \<Rightarrow> string + string) \<Rightarrow> string list \<Rightarrow>
     string list \<Rightarrow> string + string list" where
  "filter_hosts fnmatch urlparse_netloc ignore_patterns [] = Inr []"
| "filter_hosts fnmatch urlparse_netloc ignore_patterns (host # hosts) =
     (case should_ignore fnmatch urlparse_netloc host ignore_patterns of
        Inl e \<Rightarrow> Inl e
      | Inr ignored \<Rightarrow>
          (case filter_hosts fnmatch urlparse_netloc ignore_patterns hosts of
             Inl e \<Rightarrow> Inl e
           | Inr filtered_hosts \<Rightarrow> Inr (if ignored then filtered_hosts else host # filtered_hosts)))"

definition filter_ignored ::
    "(string \<Rightarrow> string \<Rightarrow> bool) \<Rightarrow> (string \<Rightarrow> string + string) \<Rightarrow> string list \<Rightarrow>
     string list \<Rightarrow> string + string list" where
  "filter_ignored fnmatch urlparse_netloc ignore_patterns hosts =
     (if ignore_patterns \<noteq> [] then filter_hosts fnmatch urlparse_netloc ignore_patterns hosts
      else Inr hosts)"

definition missing_hosts :: "string list \<Rightarrow> string set \<Rightarrow> string list" where
  "missing_hosts hosts existing_urls = filter (\<lambda>h. h \<notin> existing_urls) hosts"

definition http_config :: "string \<Rightarrow> string \<Rightarrow> monitor_config" where
  "http_config hostname host =
     HttpConfig hostname host ''GET'' 60 60 0 [''200-299''] 10 48"

text \<open>
  One round of the creation loop. The network location of the host is computed before
  the \<open>try\<close> block (line 399), so a \<open>ValueError\<close> of \<open>urlparse\<close> is not caught by
  the handler of the creation and leaves the loop.
\<close>

definition create_http_monitor ::
    "(string \<Rightarrow> string + string) \<Rightarrow> nat option \<Rightarrow> nat option \<Rightarrow> string \<Rightarrow>
     string set \<times> nat \<Rightarrow> (string set \<times> nat) prog" where
  "create_http_monitor urlparse_netloc tag_id traefik_tag_id host st =
     (case st of (existing_urls, total_created) \<Rightarrow>
        (case urlparse_netloc host of
           Inl e \<Rightarrow> raise e
         | Inr hostname \<Rightarrow>
             try_except
               (bnd (add_monitor (http_config hostname host)) (\<lambda>monitor_id.
                  thn (case (if truthy monitor_id then monitor_id else None) of
                         Some i \<Rightarrow> add_tags_to_monitor i [tag_id, traefik_tag_id]
                                     (Some ensure_authenticated)
                       | None \<Rightarrow> ret ())
                      (thn (print_msg (Created monitor_id))
                           (ret (insert host existing_urls, total_created + 1)))))
               (\<lambda>e. thn (print_msg (CreateFailed e)) (ret (existing_urls, total_created)))))"

definition traefik_tag_phase ::
    "bool \<Rightarrow> monitor list \<Rightarrow> nat option \<Rightarrow> nat option \<Rightarrow> string list \<Rightarrow> string set \<Rightarrow> nat prog"
  where
  "traefik_tag_phase reset_tags monitors tag_id traefik_tag_id hosts existing_urls =
     (let existing_hosts_for_this_traefik = filter (\<lambda>h. h \<in> existing_urls) hosts
      in for_each existing_hosts_for_this_traefik
           (\<lambda>host tags_updated.
              case find (\<lambda>monitor. m_url monitor = host) monitors of
                Some monitor_to_check \<Rightarrow>
                  update_monitor_tags reset_tags monitor_to_check tag_id traefik_tag_id
                    tags_updated
              | None \<Rightarrow> ret tags_updated)
           (0::nat))"

definition process_traefik ::
    "environment \<Rightarrow> string list \<Rightarrow> bool \<Rightarrow> monitor list \<Rightarrow> nat option \<Rightarrow>
     source_group \<Rightarrow> string set \<times> nat \<Rightarrow> (string set \<times> nat) prog" where
  "process_traefik env ignore_patterns reset_tags monitors traefik_tag_id traefik_info st =
     (let traefik_url = g_url traefik_info;
          group_name = g_group traefik_info;
          hosts = extract_hosts_from_traefik (traefik_net env) traefik_url
      in if hosts = [] then ret st
         else
           (case filter_ignored (fnmatch_fn env) (netloc_fn env) ignore_patterns hosts of
              Inl e \<Rightarrow> raise e
            | Inr hosts \<Rightarrow>
                bnd (if group_name \<noteq> []
                     then get_or_create_tag group_name (Some ensure_authenticated)
                     else ret None) (\<lambda>tag_id.
                thn (if truthy tag_id
                     then traefik_tag_phase reset_tags monitors tag_id traefik_tag_id hosts (fst st)
                     else ret 0)
                    (for_each (missing_hosts hosts (fst st))
                       (create_http_monitor (netloc_fn env) tag_id traefik_tag_id) st))))"


subsection \<open>\<open>sync_monitors\<close>: one container group\<close>

definition docker_tag_phase ::
    "bool \<Rightarrow> monitor list \<Rightarrow> nat option \<Rightarrow> nat option \<Rightarrow> nat option \<Rightarrow> string list \<Rightarrow> nat prog"
  where
  "docker_tag_phase reset_tags monitors tag_id docker_tag_id docker_host_id containers =
     for_each containers
       (\<lambda>container_name tags_updated.
          case find (\<lambda>monitor. m_type monitor = DOCKER \<and> m_name monitor = container_name
                               \<and> m_docker_host monitor = docker_host_id) monitors of
            Some monitor_to_check \<Rightarrow>
              update_monitor_tags reset_tags monitor_to_check tag_id docker_tag_id tags_updated
          | None \<Rightarrow> ret tags_updated)
       (0::nat)"

definition existing_docker_monitors :: "monitor list \<Rightarrow> nat option \<Rightarrow> string set" where
  "existing_docker_monitors monitors docker_host_id =
     fold (\<lambda>monitor existing.
             if m_type monitor = DOCKER \<and> m_docker_host monitor = docker_host_id
             then insert (m_name monitor) existing else existing)
          monitors {}"

definition missing_containers :: "string list \<Rightarrow> monitor list \<Rightarrow> nat option \<Rightarrow> string list" where
  "missing_containers containers monitors docker_host_id =
     filter (\<lambda>c. c \<notin> existing_docker_monitors monitors docker_host_id) containers"

definition create_docker_monitor ::
    "nat option \<Rightarrow> nat option \<Rightarrow> nat option \<Rightarrow> string \<Rightarrow> nat \<Rightarrow> nat prog" where
  "create_docker_monitor tag_id docker_tag_id docker_host_id container_name total_created =
     try_except
       (bnd (add_monitor (DockerConfig container_name container_name docker_host_id))
          (\<lambda>monitor_id.
             thn (case (if truthy monitor_id then monitor_id else None) of
                    Some i \<Rightarrow> add_tags_to_monitor i [tag_id, docker_tag_id]
                                (Some ensure_authenticated)
                  | None \<Rightarrow> ret ())
                 (thn (print_msg (Created monitor_id)) (ret (total_created + 1)))))
       (\<lambda>e. thn (print_msg (CreateFailed e)) (ret total_created))"

definition process_docker ::
    "environment \<Rightarrow> bool \<Rightarrow> monitor list \<Rightarrow> source_group \<Rightarrow> nat \<Rightarrow> nat prog" where
  "process_docker env reset_tags monitors docker_info total_created =
     (let docker_url = g_url docker_info;
          group_name = g_group docker_info;
          docker_host = group_name @ ''-docker'';
          containers = extract_containers_from_docker (docker_net env) docker_url
      in if containers = [] then ret total_created
         else
           bnd (if group_name \<noteq> []
                then get_or_create_tag group_name (Some ensure_authenticated)
                else ret None) (\<lambda>tag_id.
           bnd (get_or_create_tag ''docker'' (Some ensure_authenticated)) (\<lambda>docker_tag_id.
           bnd (get_docker_host_id docker_host (Some ensure_authenticated)) (\<lambda>docker_host_id.
             if \<not> truthy docker_host_id
             then thn (print_msg (DockerHostMissing docker_host)) (ret total_created)
             else
               thn (if truthy tag_id \<or> truthy docker_tag_id
                    then docker_tag_phase reset_tags monitors tag_id docker_tag_id
                           docker_host_id containers
                    else ret 0)
                   (for_each (missing_containers containers monitors docker_host_id)
                      (create_docker_monitor tag_id docker_tag_id docker_host_id)
                      total_created)))))"

subsection \<open>\<open>sync_monitors\<close>\<close>

definition sync_groups ::
    "environment \<Rightarrow> source_group list \<Rightarrow> source_group list \<Rightarrow> string list \<Rightarrow> bool \<Rightarrow>
     monitor list \<Rightarrow> unit prog" where
  "sync_groups env traefik_servers docker_servers ignore_patterns reset_tags monitors =
     bnd (get_or_create_tag ''traefik'' (Some ensure_authenticated)) (\<lambda>traefik_tag_id.
     thn (if \<not> truthy traefik_tag_id then print_msg NoTraefikTag else ret ())
    (bnd (for_each traefik_servers
            (process_traefik env ignore_patterns reset_tags monitors traefik_tag_id)
            (existing_urls_of monitors, 0)) (\<lambda>st.
     bnd (for_each docker_servers (process_docker env reset_tags monitors) (snd st))
       (\<lambda>total_created. print_msg (SyncComplete total_created)))))"

definition sync_body ::
    "environment \<Rightarrow> source_group list \<Rightarrow> source_group list \<Rightarrow> string list \<Rightarrow> bool \<Rightarrow> unit prog"
  where
  "sync_body env traefik_servers docker_servers ignore_patterns reset_tags =
     thn login
       (bnd get_monitors (\<lambda>monitors.
        bnd (prune (fnmatch_fn env) (netloc_fn env) ignore_patterns monitors) (\<lambda>monitors.
        sync_groups env traefik_servers docker_servers ignore_patterns reset_tags monitors)))"

definition sync_monitors ::
    "environment \<Rightarrow> source_group list \<Rightarrow> source_group list \<Rightarrow> string list \<Rightarrow> bool \<Rightarrow> unit prog"
  where
  "sync_monitors env traefik_servers docker_servers ignore_patterns reset_tags =
     thn new_api
       (try_finally
          (try_except
             (sync_body env traefik_servers docker_servers ignore_patterns reset_tags)
             (\<lambda>e. thn (print_msg (FatalError e)) (sys_exit 1)))
          (try_except disconnect (\<lambda>_. ret ())))"


section \<open>Properties of runs\<close>

text \<open>
  \<open>extends P w w'\<close>: from \<open>w\<close> to \<open>w'\<close> the engine sent only requests satisfying
  \<open>P\<close>. \<open>reauth_failed w\<close>: the last line printed reports a failed re-authentication.
  \<open>sound P may_raise m\<close>: whatever the world, \<open>m\<close> sends only requests satisfying
  \<open>P\<close>, raises only if \<open>may_raise\<close>, and exits only with status 1 right after a
  failed re-authentication.
\<close>

definition extends :: "(call \<Rightarrow> bool) \<Rightarrow> world \<Rightarrow> world \<Rightarrow> bool" where
  "extends P w w' \<longleftrightarrow> (\<exists>cs. trace w' = trace w @ cs \<and> list_all P cs)"

definition reauth_failed :: "world \<Rightarrow> bool" where
  "reauth_failed w \<longleftrightarrow> (\<exists>ms e. printed w = ms @ [ReauthFailed e])"

definition sound :: "(call \<Rightarrow> bool) \<Rightarrow> bool \<Rightarrow> 'a prog \<Rightarrow> bool" where
  "sound P may_raise m \<longleftrightarrow>
     (\<forall>w. case m w of
            (Done x, w') \<Rightarrow> extends P w w'
          | (Raised e, w') \<Rightarrow> may_raise \<and> extends P w w'
          | (Exit n, w') \<Rightarrow> n = 1 \<and> reauth_failed w' \<and> extends P w w')"

definition is_reauth_call :: "call \<Rightarrow> bool" where
  "is_reauth_call c = (c = Disconnect \<or> c = SioConnect \<or> c = Login)"

text \<open>The requests sent from world \<open>w\<close> on, up to world \<open>w'\<close>.\<close>

definition new_calls :: "world \<Rightarrow> world \<Rightarrow> call list" where
  "new_calls w w' = drop (length (trace w)) (trace w')"

section \<open>Scenarios\<close>

text \<open>
  The proxy of the specification's scenario: router \<open>r1\<close> on the \<open>https\<close> entry
  point with rule \<open>Host(`a.example.com`)\<close>, router \<open>r2\<close> on \<open>http\<close> with rule
  \<open>Host(`b.example.com`)\<close>. A second proxy, \<open>proxy2\<close>, has the same routers.
\<close>

definition host_rule :: "string \<Rightarrow> string" where
  "host_rule h = ''Host('' @ [bt] @ h @ [bt] @ '')''"

definition scenario_routers :: "(string \<times> router_config) list" where
  "scenario_routers =
     [(''r1'', \<lparr>entryPoints = [''https''], rule = host_rule ''a.example.com''\<rparr>),
      (''r2'', \<lparr>entryPoints = [''http''], rule = host_rule ''b.example.com''\<rparr>)]"

definition scenario_net :: "string \<Rightarrow> traefik_response" where
  "scenario_net u = (if u = ''http://proxy/api/rawdata'' \<or> u = ''http://proxy2/api/rawdata''
                     then RawData scenario_routers else FetchFailed)"

text \<open>A service with nothing in it, and the same service about to fail some requests.\<close>

definition empty_world :: world where
  "empty_world =
     \<lparr>srv_monitors = [], srv_tags = [], srv_docker_hosts = [], srv_next_id = 1,
      faults = [], trace = [], printed = []\<rparr>"

definition failing_world :: "string option list \<Rightarrow> world" where
  "failing_world fs = empty_world\<lparr>faults := fs\<rparr>"



text \<open>The requests that create or delete a monitor.\<close>

definition changes_inventory :: "call \<Rightarrow> bool" where
  "changes_inventory c = (case c of AddMonitor _ \<Rightarrow> True | DeleteMonitor _ \<Rightarrow> True | _ \<Rightarrow> False)"

text \<open>The first two requests of the run body (login, first listing) do not fail.\<close>

definition reaches_pruning :: "world \<Rightarrow> bool" where
  "reaches_pruning w = (case faults w of
                          [] \<Rightarrow> True
                        | [f] \<Rightarrow> f = None
                        | f # g # _ \<Rightarrow> f = None \<and> g = None)"

text \<open>What \<open>prune\<close> prints for one monitor selected for removal.\<close>

definition removal_report :: "monitor \<Rightarrow> message \<Rightarrow> bool" where
  "removal_report monitor msg \<longleftrightarrow>
     msg = Removed (m_id monitor) \<or> (\<exists>e. msg = RemoveFailed (m_id monitor) e)"

text \<open>
  A service holding one container monitor named \<open>web\<close> (no URL) under runtime host 7,
  and an environment with one container runtime that runs \<open>web\<close>.
\<close>

definition web_monitor :: monitor where
  "web_monitor =
     \<lparr>m_id = 1, m_name = ''web'', m_url = [], m_type = DOCKER, m_docker_host = Some 7,
      m_tags = []\<rparr>"

definition web_world :: world where
  "web_world = empty_world\<lparr>srv_monitors := [web_monitor], srv_next_id := 2\<rparr>"

definition docker_env :: environment where
  "docker_env =
     \<lparr>fnmatch_fn = glob, netloc_fn = plain_netloc,
      traefik_net = (\<lambda>u. FetchFailed),
      docker_net = (\<lambda>u. if u = ''http://d1:2375/containers/json''
                             \<or> u = ''http://d2:2375/containers/json''
                          then Containers [[''/web'']] else DockerFailed)\<rparr>"

definition docker_world :: world where
  "docker_world = empty_world\<lparr>srv_docker_hosts := [\<lparr>dh_id = 7, dh_name = ''prod-docker''\<rparr>]\<rparr>"

text \<open>
  A service with three HTTP monitors, two of them under \<open>.internal\<close>, whose third
  request from now on (the first deletion) will fail.
\<close>

definition http_monitor :: "nat \<Rightarrow> string \<Rightarrow> monitor" where
  "http_monitor i host =
     \<lparr>m_id = i, m_name = host, m_url = ''https://'' @ host, m_type = HTTP,
      m_docker_host = None, m_tags = []\<rparr>"

definition pruning_world :: world where
  "pruning_world =
     empty_world\<lparr>srv_monitors := [http_monitor 1 ''a.internal'', http_monitor 2 ''b.example.com'',
                                  http_monitor 3 ''c.internal''],
                 srv_next_id := 4,
                 faults := [None, None, Some ''timeout'']\<rparr>"

text \<open>
  A service with two HTTP monitors, the first under \<open>.internal\<close>, the second with
  the URL \<open>https://[abc\<close>, whose bracket is not closed.
\<close>

definition bracket_world :: world where
  "bracket_world =
     empty_world\<lparr>srv_monitors := [http_monitor 1 ''a.internal'', http_monitor 2 ''[abc''],
                 srv_next_id := 3\<rparr>"

text \<open>An environment whose only source is the proxy of the scenario.\<close>

definition proxy_env :: environment where
  "proxy_env =
     \<lparr>fnmatch_fn = glob, netloc_fn = plain_netloc, traefik_net = scenario_net,
      docker_net = (\<lambda>u. DockerFailed)\<rparr>"



text \<open>
  Two proxy groups with different labels whose proxies both serve the scenario's host, and two
  container groups with the same label (hence the same runtime host \<open>prod-docker\<close>)
  that both run \<open>web\<close>.
\<close>

definition proxy_groups :: "source_group list" where
  "proxy_groups =
     [\<lparr>g_url = ''http://proxy'', g_group = ''A''\<rparr>,
      \<lparr>g_url = ''http://proxy2'', g_group = ''B''\<rparr>]"

definition docker_groups :: "source_group list" where
  "docker_groups =
     [\<lparr>g_url = ''tcp://d1:2375'', g_group = ''prod''\<rparr>,
      \<lparr>g_url = ''tcp://d2:2375'', g_group = ''prod''\<rparr>]"

text \<open>The world a first run over the two proxy groups leaves behind.\<close>

definition after_first_run :: world where
  "after_first_run = snd (sync_monitors proxy_env proxy_groups [] [] False empty_world)"

section \<open>Basic facts\<close>

subsection \<open>The router rule expression\<close>

lemma hma_iff: "host_match_at s = Some name \<longleftrightarrow>
   (name \<noteq> [] \<and> bt \<notin> set name \<and> (\<exists>suf. s = ''Host('' @ [bt] @ name @ [bt] @ '')'' @ suf))"
proof
  assume h: "host_match_at s = Some name"
  let ?r = "drop 6 s"
  from h have t: "take 6 s = ''Host('' @ [bt]"
    by (auto simp: host_match_at_def split: if_splits)
  from h t have n: "name = takeWhile (\<lambda>c. c \<noteq> bt) ?r" "name \<noteq> []"
     and r2: "take 2 (dropWhile (\<lambda>c. c \<noteq> bt) ?r) = [bt] @ '')''"
    by (auto simp: host_match_at_def Let_def split: if_splits)
  have "s = take 6 s @ ?r" by simp
  also have "?r = name @ dropWhile (\<lambda>c. c \<noteq> bt) ?r" using n by simp
  also have "dropWhile (\<lambda>c. c \<noteq> bt) ?r = take 2 (dropWhile (\<lambda>c. c \<noteq> bt) ?r) @ drop 2 (dropWhile (\<lambda>c. c \<noteq> bt) ?r)" by simp
  finally have "s = ''Host('' @ [bt] @ name @ [bt] @ '')'' @ drop 2 (dropWhile (\<lambda>c. c \<noteq> bt) ?r)"
    using t r2 by simp
  moreover have "bt \<notin> set name" using n(1) by (auto dest: set_takeWhileD)
  ultimately show "name \<noteq> [] \<and> bt \<notin> set name \<and> (\<exists>suf. s = ''Host('' @ [bt] @ name @ [bt] @ '')'' @ suf)"
    using n(2) by blast
next
  assume "name \<noteq> [] \<and> bt \<notin> set name \<and> (\<exists>suf. s = ''Host('' @ [bt] @ name @ [bt] @ '')'' @ suf)"
  then obtain suf where a: "name \<noteq> []" "bt \<notin> set name" and s: "s = ''Host('' @ [bt] @ name @ [bt] @ '')'' @ suf"
    by blast
  have tw: "takeWhile (\<lambda>c. c \<noteq> bt) (name @ bt # CHR '')'' # suf) = name"
    using a(2) by (auto simp: takeWhile_tail)
  have dw: "dropWhile (\<lambda>c. c \<noteq> bt) (name @ bt # CHR '')'' # suf) = bt # CHR '')'' # suf"
    using a(2) by (auto simp: dropWhile_append3)
  show "host_match_at s = Some name"
    using a(1) tw dw by (simp add: host_match_at_def s)
qed


lemma hma_Nil [simp]: "host_match_at [] = None"
  by (simp add: host_match_at_def)

lemma rsh_iff: "re_search_host s = Some name \<longleftrightarrow>
   (\<exists>i. i \<le> length s \<and> host_match_at (drop i s) = Some name \<and> (\<forall>j<i. host_match_at (drop j s) = None))"
proof (induction s)
  case Nil
  then show ?case by simp
next
  case (Cons c cs)
  show ?case
  proof (cases "host_match_at (c # cs)")
    case (Some n)
    have "(\<exists>i. i \<le> length (c # cs) \<and> host_match_at (drop i (c # cs)) = Some name \<and> (\<forall>j<i. host_match_at (drop j (c # cs)) = None)) \<longleftrightarrow> n = name"
    proof
      assume "\<exists>i. i \<le> length (c # cs) \<and> host_match_at (drop i (c # cs)) = Some name \<and> (\<forall>j<i. host_match_at (drop j (c # cs)) = None)"
      then obtain i where i: "host_match_at (drop i (c # cs)) = Some name" "\<forall>j<i. host_match_at (drop j (c # cs)) = None"
        by blast
      have "i = 0"
      proof (rule ccontr)
        assume "i \<noteq> 0"
        then have "host_match_at (drop 0 (c # cs)) = None" using i(2) by blast
        then show False using Some by simp
      qed
      then show "n = name" using i(1) Some by simp
    next
      assume "n = name"
      then have "0 \<le> length (c # cs) \<and> host_match_at (drop 0 (c # cs)) = Some name \<and> (\<forall>j<0. host_match_at (drop j (c # cs)) = None)"
        using Some by simp
      then show "\<exists>i. i \<le> length (c # cs) \<and> host_match_at (drop i (c # cs)) = Some name \<and> (\<forall>j<i. host_match_at (drop j (c # cs)) = None)"
        by blast
    qed
    then show ?thesis using Some by simp
  next
    case None
    have "(\<exists>i. i \<le> length (c # cs) \<and> host_match_at (drop i (c # cs)) = Some name \<and> (\<forall>j<i. host_match_at (drop j (c # cs)) = None))
      \<longleftrightarrow> (\<exists>i. i \<le> length cs \<and> host_match_at (drop i cs) = Some name \<and> (\<forall>j<i. host_match_at (drop j cs) = None))"
      (is "?L \<longleftrightarrow> ?R")
    proof
      assume ?L
      then obtain i where i: "i \<le> length (c # cs)" "host_match_at (drop i (c # cs)) = Some name" "\<forall>j<i. host_match_at (drop j (c # cs)) = None"
        by blast
      from i(2) None obtain k where k: "i = Suc k" by (cases i) auto
      have "\<forall>j<k. host_match_at (drop j cs) = None"
      proof (intro allI impI)
        fix j assume "j < k"
        then have "Suc j < i" using k by simp
        from i(3)[rule_format, OF this] show "host_match_at (drop j cs) = None" by simp
      qed
      with i(1,2) k show ?R by auto
    next
      assume ?R
      then obtain i where i: "i \<le> length cs" "host_match_at (drop i cs) = Some name" "\<forall>j<i. host_match_at (drop j cs) = None"
        by blast
      have "\<forall>j<Suc i. host_match_at (drop j (c # cs)) = None"
      proof (intro allI impI)
        fix j assume j: "j < Suc i"
        show "host_match_at (drop j (c # cs)) = None"
        proof (cases j)
          case 0 then show ?thesis using None by simp
        next
          case (Suc m) then show ?thesis using i(3) j by simp
        qed
      qed
      moreover have "Suc i \<le> length (c # cs)" "host_match_at (drop (Suc i) (c # cs)) = Some name" using i by auto
      ultimately show ?L by blast
    qed
    then show ?thesis using None Cons.IH by simp
  qed
qed

lemma hpa_iff: "host_pattern_at r i name \<longleftrightarrow> host_match_at (drop i r) = Some name"
proof -
  have "host_match_at (drop i r) = Some name \<Longrightarrow> i \<le> length r"
    by (rule ccontr) simp
  then show ?thesis unfolding host_pattern_at_def hma_iff by auto
qed

lemma first_host_pattern_iff: "first_host_pattern r name \<longleftrightarrow> re_search_host r = Some name"
proof
  assume "first_host_pattern r name"
  then obtain i where i: "host_match_at (drop i r) = Some name" "\<forall>j n. host_match_at (drop j r) = Some n \<longrightarrow> i \<le> j"
    unfolding first_host_pattern_def hpa_iff by blast
  have "i \<le> length r" using i(1) by (intro leI notI) simp
  moreover have "\<forall>j<i. host_match_at (drop j r) = None"
  proof (intro allI impI)
    fix j assume "j < i"
    then show "host_match_at (drop j r) = None" using i(2) by (cases "host_match_at (drop j r)") auto
  qed
  ultimately show "re_search_host r = Some name" using i(1) unfolding rsh_iff by blast
next
  assume "re_search_host r = Some name"
  then obtain i where i: "host_match_at (drop i r) = Some name" "\<forall>j<i. host_match_at (drop j r) = None"
    unfolding rsh_iff by blast
  have "\<forall>j n. host_match_at (drop j r) = Some n \<longrightarrow> i \<le> j"
  proof (intro allI impI)
    fix j n assume "host_match_at (drop j r) = Some n"
    then show "i \<le> j" using i(2) by (intro leI notI) auto
  qed
  then show "first_host_pattern r name" using i(1) unfolding first_host_pattern_def hpa_iff by blast
qed

lemma collect_hosts_fold:
  "fold (\<lambda>(router_name, router_config) hosts.
             if ''https'' \<in> set (entryPoints router_config) then
               (case re_search_host (rule router_config) of
                  Some hostname \<Rightarrow> insert (''https://'' @ hostname) hosts
                | None \<Rightarrow> hosts)
             else hosts) routers H
   = H \<union> {''https://'' @ name | name. \<exists>rc \<in> snd ` set routers. ''https'' \<in> set (entryPoints rc) \<and> re_search_host (rule rc) = Some name}"
proof (induction routers arbitrary: H)
  case Nil
  then show ?case by simp
next
  case (Cons a routers)
  obtain rn rc where a: "a = (rn, rc)" by (cases a)
  show ?case unfolding fold_simps Cons.IH a
    by (cases "re_search_host (rule rc)") auto
qed

lemma collect_hosts_eq: "collect_hosts routers = {''https://'' @ name | name. \<exists>rc \<in> snd ` set routers. ''https'' \<in> set (entryPoints rc) \<and> first_host_pattern (rule rc) name}"
  unfolding collect_hosts_def collect_hosts_fold first_host_pattern_iff by simp

lemma finite_collect_hosts: "finite (collect_hosts routers)"
proof -
  have "collect_hosts routers \<subseteq> (\<lambda>rc. ''https://'' @ the (re_search_host (rule rc))) ` (snd ` set routers)"
    unfolding collect_hosts_def collect_hosts_fold by force
  then show ?thesis by (rule finite_subset) simp
qed

subsection \<open>Computations\<close>

lemma ret_apply: "ret x w = (Done x, w)"
  by (simp add: ret_def)

lemma sys_exit_apply: "sys_exit n w = (Exit n, w)"
  by (simp add: sys_exit_def)

lemma print_msg_apply: "print_msg msg w = (Done (), w\<lparr>printed := printed w @ [msg]\<rparr>)"
  by (simp add: print_msg_def)

lemmas prog_apply = ret_apply sys_exit_apply print_msg_apply

lemma bnd_Done: "m w = (Done x, w') \<Longrightarrow> bnd m f w = f x w'"
  and bnd_Raised: "m w = (Raised e, w') \<Longrightarrow> bnd m f w = (Raised e, w')"
  and bnd_Exit: "m w = (Exit n, w') \<Longrightarrow> bnd m f w = (Exit n, w')"
  by (simp_all add: bnd_def)

lemma thn_Done: "m w = (Done x, w') \<Longrightarrow> thn m k w = k w'"
  and thn_Raised: "m w = (Raised e, w') \<Longrightarrow> thn m k w = (Raised e, w')"
  and thn_Exit: "m w = (Exit n, w') \<Longrightarrow> thn m k w = (Exit n, w')"
  by (simp_all add: thn_def bnd_def)

lemma try_Done: "m w = (Done x, w') \<Longrightarrow> try_except m h w = (Done x, w')"
  and try_Raised: "m w = (Raised e, w') \<Longrightarrow> try_except m h w = h e w'"
  and try_Exit: "m w = (Exit n, w') \<Longrightarrow> try_except m h w = (Exit n, w')"
  by (simp_all add: try_except_def)

lemma api_call_eq:
  "api_call c effect w =
     (case faults w of
        Some e # fs \<Rightarrow> (Raised e, w\<lparr>trace := trace w @ [c], faults := fs\<rparr>)
      | _ \<Rightarrow> (Done (fst (effect (w\<lparr>trace := trace w @ [c], faults := tl (faults w)\<rparr>))),
               snd (effect (w\<lparr>trace := trace w @ [c], faults := tl (faults w)\<rparr>))))"
  by (cases w) (auto simp: api_call_def Let_def split: list.splits option.splits prod.splits)

lemma extends_refl [simp]: "extends P w w"
  by (simp add: extends_def)

lemma extends_trans: "extends P w w1 \<Longrightarrow> extends P w1 w2 \<Longrightarrow> extends P w w2"
  by (auto simp: extends_def)

lemma extends_mono: "extends P w w' \<Longrightarrow> (\<And>c. P c \<Longrightarrow> Q c) \<Longrightarrow> extends Q w w'"
  by (auto simp: extends_def list_all_iff)

lemma extends_printed [simp]: "extends P w (w'\<lparr>printed := ms\<rparr>) = extends P w w'"
  by (simp add: extends_def)

lemma soundD:
  "sound P b m \<Longrightarrow> m w = (r, w') \<Longrightarrow>
     extends P w w' \<and> (\<forall>e. r = Raised e \<longrightarrow> b) \<and> (\<forall>n. r = Exit n \<longrightarrow> n = 1 \<and> reauth_failed w')"
  unfolding sound_def by (drule spec[of _ w]) (cases r; simp)

lemma soundI:
  assumes "\<And>w r w'. m w = (r, w') \<Longrightarrow>
     extends P w w' \<and> (\<forall>e. r = Raised e \<longrightarrow> b) \<and> (\<forall>n. r = Exit n \<longrightarrow> n = 1 \<and> reauth_failed w')"
  shows "sound P b m"
  unfolding sound_def
proof
  fix w
  obtain r w' where m: "m w = (r, w')" by (cases "m w")
  from assms[OF m] show "case m w of (Done x, w') \<Rightarrow> extends P w w'
          | (Raised e, w') \<Rightarrow> b \<and> extends P w w'
          | (Exit n, w') \<Rightarrow> n = 1 \<and> reauth_failed w' \<and> extends P w w'"
    unfolding m by (cases r) simp_all
qed

lemma sound_ret [simp]: "sound P b (ret x)"
  by (rule soundI) (auto simp: ret_apply)

lemma sound_print [simp]: "sound P b (print_msg msg)"
  by (rule soundI) (auto simp: print_msg_apply)

lemma raise_apply: "raise e w = (Raised e, w)"
  by (simp add: raise_def)

lemma sound_raise [simp]: "sound P True (raise e)"
  by (rule soundI) (auto simp: raise_apply)

lemma sound_weaken: "sound P False m \<Longrightarrow> sound P b m"
  by (rule soundI) (auto dest: soundD)

lemma sound_mono: "sound P b m \<Longrightarrow> (\<And>c. P c \<Longrightarrow> Q c) \<Longrightarrow> sound Q b m"
  by (rule soundI) (auto dest!: soundD intro: extends_mono)

lemma sound_bnd:
  assumes "sound P b m" and "\<And>x. sound P b (f x)"
  shows "sound P b (bnd m f)"
proof (rule soundI)
  fix w r w'
  assume h: "bnd m f w = (r, w')"
  obtain r1 w1 where m: "m w = (r1, w1)" by (cases "m w")
  note d1 = soundD[OF assms(1) m]
  show "extends P w w' \<and> (\<forall>e. r = Raised e \<longrightarrow> b) \<and> (\<forall>n. r = Exit n \<longrightarrow> n = 1 \<and> reauth_failed w')"
  proof (cases r1)
    case (Done x)
    with h m have "f x w1 = (r, w')" by (simp add: bnd_def)
    from soundD[OF assms(2) this] d1 show ?thesis by (auto intro: extends_trans)
  next
    case (Raised e)
    with h m d1 show ?thesis by (auto simp: bnd_def)
  next
    case (Exit n)
    with h m d1 show ?thesis by (auto simp: bnd_def)
  qed
qed

lemma sound_thn: "sound P b m \<Longrightarrow> sound P b k \<Longrightarrow> sound P b (thn m k)"
  unfolding thn_def by (rule sound_bnd)

lemma sound_try:
  assumes "sound P True m" and "\<And>e. sound P b (h e)"
  shows "sound P b (try_except m h)"
proof (rule soundI)
  fix w r w'
  assume h: "try_except m h w = (r, w')"
  obtain r1 w1 where m: "m w = (r1, w1)" by (cases "m w")
  note d1 = soundD[OF assms(1) m]
  show "extends P w w' \<and> (\<forall>e. r = Raised e \<longrightarrow> b) \<and> (\<forall>n. r = Exit n \<longrightarrow> n = 1 \<and> reauth_failed w')"
  proof (cases r1)
    case (Raised e)
    with h m have "h e w1 = (r, w')" by (simp add: try_except_def)
    from soundD[OF assms(2) this] d1 show ?thesis by (auto intro: extends_trans)
  next
    case (Done x)
    with h m d1 show ?thesis by (auto simp: try_except_def)
  next
    case (Exit n)
    with h m d1 show ?thesis by (auto simp: try_except_def)
  qed
qed

lemma sound_for_each:
  assumes "\<And>x s. x \<in> set xs \<Longrightarrow> sound P b (body x s)"
  shows "sound P b (for_each xs body s)"
  using assms by (induction xs arbitrary: s) (auto intro!: sound_bnd)

lemma sound_api_call:
  assumes "P c" and "\<And>w. trace (snd (effect w)) = trace w"
  shows "sound P True (api_call c effect)"
  by (rule soundI)
     (use assms in \<open>auto simp: api_call_eq extends_def split: list.splits option.splits\<close>)

lemma sound_requests:
  "P UptimeKumaApi \<Longrightarrow> sound P True new_api"
  "P Login \<Longrightarrow> sound P True login"
  "P Disconnect \<Longrightarrow> sound P True disconnect"
  "P SioConnect \<Longrightarrow> sound P True sio_connect"
  "P GetMonitors \<Longrightarrow> sound P True get_monitors"
  "P GetTags \<Longrightarrow> sound P True get_tags"
  "P GetDockerHosts \<Longrightarrow> sound P True get_docker_hosts"
  "P (AddTag name color) \<Longrightarrow> sound P True (add_tag name color)"
  "P (AddMonitorTag tag_id monitor_id val) \<Longrightarrow> sound P True (add_monitor_tag tag_id monitor_id val)"
  "P (DeleteMonitorTag t monitor_id val) \<Longrightarrow> sound P True (delete_monitor_tag t monitor_id val)"
  "P (AddMonitor cfg) \<Longrightarrow> sound P True (add_monitor cfg)"
  "P (DeleteMonitor monitor_id) \<Longrightarrow> sound P True (delete_monitor monitor_id)"
  unfolding new_api_def login_def disconnect_def sio_connect_def get_monitors_def get_tags_def
    get_docker_hosts_def add_tag_def add_monitor_tag_def delete_monitor_tag_def add_monitor_def
    delete_monitor_def
  by (rule sound_api_call; simp add: Let_def split: option.splits)+

lemma sound_reauth_exit: "sound P b (thn (print_msg (ReauthFailed e)) (sys_exit 1))"
  by (rule soundI) (auto simp: thn_def bnd_def reauth_failed_def prog_apply)

lemma sound_ensure_authenticated:
  assumes "\<And>c. is_reauth_call c \<Longrightarrow> P c"
  shows "sound P b ensure_authenticated"
  unfolding ensure_authenticated_def
  by (intro sound_thn sound_try sound_requests sound_print sound_reauth_exit assms)
     (simp_all add: is_reauth_call_def)

section \<open>The proxy extractor\<close>

text \<open>
  C9. For every answer of the proxy, the identifiers returned are \<open>https://name\<close>
  exactly for the routers whose entry points contain \<open>https\<close> and whose rule contains a
  \<open>Host(`name`)\<close> pattern, the leftmost one giving the name; the list is sorted and
  free of duplicates; a failed fetch or parse gives the empty list.
\<close>

theorem extract_hosts_from_traefik_spec:
  "(case net (traefik_url @ ''/api/rawdata'') of
      RawData routers \<Rightarrow>
        set (extract_hosts_from_traefik net traefik_url) =
          {''https://'' @ name | name.
             \<exists>rc \<in> snd ` set routers.
               ''https'' \<in> set (entryPoints rc) \<and> first_host_pattern (rule rc) name}
    | FetchFailed \<Rightarrow> extract_hosts_from_traefik net traefik_url = [])
   \<and> sorted (extract_hosts_from_traefik net traefik_url)
   \<and> distinct (extract_hosts_from_traefik net traefik_url)"
proof (cases "net (traefik_url @ ''/api/rawdata'')")
  case FetchFailed
  then show ?thesis by (simp add: extract_hosts_from_traefik_def)
next
  case (RawData routers)
  then have e: "extract_hosts_from_traefik net traefik_url = sorted_list_of_set (collect_hosts routers)"
    by (simp add: extract_hosts_from_traefik_def)
  have "set (sorted_list_of_set (collect_hosts routers)) = collect_hosts routers"
    by (simp add: finite_collect_hosts)
  then show ?thesis unfolding e RawData by (simp add: collect_hosts_eq)
qed

theorem extract_hosts_from_traefik_spec_witness:
  "{''https://'' @ name | name.
      \<exists>rc \<in> snd ` set scenario_routers.
        ''https'' \<in> set (entryPoints rc) \<and> first_host_pattern (rule rc) name}
     = {''https://a.example.com''}
   \<and> extract_hosts_from_traefik scenario_net ''http://proxy'' = [''https://a.example.com'']
   \<and> extract_hosts_from_traefik scenario_net ''http://other'' = []"
proof -
  have v: "extract_hosts_from_traefik scenario_net ''http://proxy'' = [''https://a.example.com'']"
    by code_simp
  have f: "extract_hosts_from_traefik scenario_net ''http://other'' = []"
    by code_simp
  have n: "scenario_net (''http://proxy'' @ ''/api/rawdata'') = RawData scenario_routers"
    by (simp add: scenario_net_def)
  from extract_hosts_from_traefik_spec[of scenario_net "''http://proxy''"]
  show ?thesis unfolding n v using f by simp
qed

section \<open>Adding tags to a monitor\<close>

lemma sound_add_tag_attempts:
  assumes "P (AddMonitorTag tag_id monitor_id [])"
    and "\<And>f. ensure_auth_fn = Some f \<Longrightarrow> sound P False f"
  shows "sound P False (add_tag_attempts max_retries monitor_id tag_id ensure_auth_fn attempts)"
proof (induction attempts)
  case Nil
  show ?case by simp
next
  case (Cons attempt rest)
  show ?case
    unfolding add_tag_attempts.simps
  proof (rule sound_try)
    show "sound P True (add_monitor_tag tag_id monitor_id [])"
      by (rule sound_requests) (rule assms(1))
  next
    fix e
    show "sound P False
            (case if is_auth_error e \<and> attempt < max_retries - 1 then ensure_auth_fn else None of
               None \<Rightarrow> if attempt = max_retries - 1 then print_msg (AddTagWarning tag_id e) else ret ()
             | Some ensure_auth \<Rightarrow>
                 thn ensure_auth (add_tag_attempts max_retries monitor_id tag_id ensure_auth_fn rest))"
      using Cons.IH assms(2) by (auto split: option.splits intro!: sound_thn)
  qed
qed

lemma sound_add_tags_to_monitor:
  assumes "\<And>t. t \<in> set tag_ids \<Longrightarrow> truthy t \<Longrightarrow> P (AddMonitorTag t monitor_id [])"
    and "\<And>f. ensure_auth_fn = Some f \<Longrightarrow> sound P False f"
  shows "sound P False (add_tags_to_monitor monitor_id tag_ids ensure_auth_fn)"
  unfolding add_tags_to_monitor_def
proof (rule sound_for_each)
  fix x :: "nat option" and s :: unit
  assume x: "x \<in> set tag_ids"
  show "sound P False (if \<not> truthy x then ret ()
          else let max_retries = 2
               in add_tag_attempts max_retries monitor_id x ensure_auth_fn [0..<max_retries])"
  proof (cases "truthy x")
    case True
    have "sound P False (add_tag_attempts 2 monitor_id x ensure_auth_fn [0..<2])"
      by (rule sound_add_tag_attempts) (use x True assms in auto)
    then show ?thesis using True by (simp add: Let_def)
  next
    case False
    then show ?thesis by simp
  qed
qed

lemma add_tag_attempts_None:
  "fst (add_tag_attempts max_retries monitor_id tag_id None attempts w) = Done ()"
proof (cases attempts)
  case Nil
  then show ?thesis by (simp add: ret_apply)
next
  case (Cons attempt rest)
  obtain r w1 where m: "add_monitor_tag tag_id monitor_id [] w = (r, w1)"
    by (cases "add_monitor_tag tag_id monitor_id [] w")
  have ne: "\<And>n. r \<noteq> Exit n"
    using m by (auto simp: add_monitor_tag_def api_call_eq split: list.splits option.splits)
  show ?thesis
    unfolding Cons add_tag_attempts.simps
    by (cases r) (use ne in \<open>simp_all add: m try_except_def prog_apply\<close>)
qed

lemma for_each_Done:
  assumes "\<And>x s w. x \<in> set xs \<Longrightarrow> \<exists>s'. fst (body x s w) = Done s'"
  shows "\<exists>s'. fst (for_each xs body s w) = Done s'"
  using assms
proof (induction xs arbitrary: s w)
  case Nil
  then show ?case by (simp add: ret_apply)
next
  case (Cons x xs)
  from Cons.prems[of x s w] obtain s1 where "fst (body x s w) = Done s1" by auto
  then obtain w1 where b: "body x s w = (Done s1, w1)" by (cases "body x s w") auto
  have "\<exists>s'. fst (for_each xs body s1 w1) = Done s'"
    by (rule Cons.IH) (simp add: Cons.prems)
  then show ?case by (simp add: bnd_def b)
qed

lemma for_each_skip:
  assumes "\<And>x s w. x \<in> set xs \<Longrightarrow> body x s w = (Done s, w)"
  shows "for_each xs body s w = (Done s, w)"
  using assms
proof (induction xs)
  case Nil
  then show ?case by (simp add: ret_apply)
next
  case (Cons x xs)
  have b: "body x s w = (Done s, w)" by (simp add: Cons.prems)
  have "for_each xs body s w = (Done s, w)"
    by (rule Cons.IH) (simp add: Cons.prems)
  then show ?case by (simp add: bnd_def b)
qed

text \<open>
  C10. Whatever the list of tag identifiers, \<open>add_tags_to_monitor\<close> sends
  \<open>add_monitor_tag\<close> only for the entries of the list that are true in Python's sense
  (neither \<open>None\<close> nor \<open>0\<close>), and besides that only the requests of a
  re-authentication; a list with no such entry sends nothing. Whatever requests fail,
  it never ends with an exception: it returns, or the process exits with status 1
  because a re-authentication failed.
\<close>

theorem add_tags_to_monitor_skips_missing:
  assumes "ensure_auth_fn = None \<or> ensure_auth_fn = Some ensure_authenticated"
  shows "case add_tags_to_monitor monitor_id tag_ids ensure_auth_fn w of (r, w') \<Rightarrow>
           (\<exists>cs. trace w' = trace w @ cs \<and>
                 (\<forall>c \<in> set cs. is_reauth_call c \<or>
                    (\<exists>t \<in> set tag_ids. truthy t \<and> c = AddMonitorTag t monitor_id [])))
           \<and> (\<forall>e. r \<noteq> Raised e)
           \<and> (r = Done () \<or> (r = Exit 1 \<and> ensure_auth_fn \<noteq> None \<and> reauth_failed w'))
           \<and> ((\<forall>t \<in> set tag_ids. \<not> truthy t) \<longrightarrow> r = Done () \<and> w' = w)"
proof -
  let ?P = "\<lambda>c. is_reauth_call c \<or> (\<exists>t \<in> set tag_ids. truthy t \<and> c = AddMonitorTag t monitor_id [])"
  obtain r w' where m: "add_tags_to_monitor monitor_id tag_ids ensure_auth_fn w = (r, w')"
    by (cases "add_tags_to_monitor monitor_id tag_ids ensure_auth_fn w")
  have s: "sound ?P False (add_tags_to_monitor monitor_id tag_ids ensure_auth_fn)"
  proof (rule sound_add_tags_to_monitor)
    fix f assume "ensure_auth_fn = Some f"
    with assms have "f = ensure_authenticated" by auto
    then show "sound ?P False f" by (simp add: sound_ensure_authenticated)
  qed auto
  note d = soundD[OF s m]
  have 1: "\<exists>cs. trace w' = trace w @ cs \<and> (\<forall>c \<in> set cs. ?P c)"
    using d by (auto simp: extends_def list_all_iff)
  have 2: "\<forall>e. r \<noteq> Raised e" using d by auto
  have 3: "r = Done () \<or> (r = Exit 1 \<and> ensure_auth_fn \<noteq> None \<and> reauth_failed w')"
  proof (cases "ensure_auth_fn = None")
    case True
    have "\<exists>s'. fst (add_tags_to_monitor monitor_id tag_ids None w) = Done s'"
      unfolding add_tags_to_monitor_def
      by (rule for_each_Done) (auto simp: Let_def add_tag_attempts_None ret_apply)
    then show ?thesis using m True by auto
  next
    case False
    then show ?thesis using d by (cases r) auto
  qed
  have 4: "(\<forall>t \<in> set tag_ids. \<not> truthy t) \<longrightarrow> r = Done () \<and> w' = w"
  proof
    assume a: "\<forall>t \<in> set tag_ids. \<not> truthy t"
    have "add_tags_to_monitor monitor_id tag_ids ensure_auth_fn w = (Done (), w)"
      unfolding add_tags_to_monitor_def
      by (rule for_each_skip) (use a in \<open>auto simp: ret_apply\<close>)
    with m show "r = Done () \<and> w' = w" by simp
  qed
  show ?thesis unfolding m using 1 2 3 4 by simp
qed


theorem add_tags_to_monitor_skips_missing_witness:
  "(Some ensure_authenticated = None \<or> Some ensure_authenticated = Some ensure_authenticated)
   \<and> (case add_tags_to_monitor 5 [Some 0, None, Some 3] (Some ensure_authenticated)
              (failing_world [Some ''Not logged in'']) of
         (r, w') \<Rightarrow>
           (\<exists>cs. trace w' = trace (failing_world [Some ''Not logged in'']) @ cs \<and>
                 (\<forall>c \<in> set cs. is_reauth_call c \<or>
                    (\<exists>t \<in> set [Some 0, None, Some 3]. truthy t \<and> c = AddMonitorTag t 5 [])))
           \<and> (\<forall>e. r \<noteq> Raised e)
           \<and> (r = Done () \<or> (r = Exit 1 \<and> Some ensure_authenticated \<noteq> None \<and> reauth_failed w'))
           \<and> ((\<forall>t \<in> set [Some 0, None, Some 3]. \<not> truthy t) \<longrightarrow>
                  r = Done () \<and> w' = failing_world [Some ''Not logged in'']))
   \<and> trace (snd (add_tags_to_monitor 5 [Some 0, None, Some 3] (Some ensure_authenticated)
                    (failing_world [Some ''Not logged in''])))
       = [AddMonitorTag (Some 3) 5 [], Disconnect, SioConnect, Login, AddMonitorTag (Some 3) 5 []]"
proof -
  have h: "Some ensure_authenticated = None \<or> Some ensure_authenticated = Some ensure_authenticated"
    by simp
  have v: "trace (snd (add_tags_to_monitor 5 [Some 0, None, Some 3] (Some ensure_authenticated)
                    (failing_world [Some ''Not logged in''])))
       = [AddMonitorTag (Some 3) 5 [], Disconnect, SioConnect, Login, AddMonitorTag (Some 3) 5 []]"
    by code_simp
  show ?thesis
    by (intro conjI h v add_tags_to_monitor_skips_missing[OF h])
qed

section \<open>Resetting the tags of a monitor\<close>

lemma extends_new_calls: "extends P w w' \<Longrightarrow> trace w' = trace w @ new_calls w w' \<and> list_all P (new_calls w w')"
  by (auto simp: extends_def new_calls_def)

lemma new_calls_append: "trace w' = trace w @ cs \<Longrightarrow> new_calls w w' = cs"
  by (simp add: new_calls_def)


lemma sound_remove_tag_attempts:
  assumes "P (DeleteMonitorTag (mt_tag_id tag) monitor_id (mt_value tag))"
    and "\<And>c. is_reauth_call c \<Longrightarrow> P c"
  shows "sound P False (remove_tag_attempts max_retries monitor_id tag attempts failed)"
proof (induction attempts)
  case Nil
  show ?case by simp
next
  case (Cons attempt rest)
  show ?case
    unfolding remove_tag_attempts.simps
  proof (rule sound_try)
    show "sound P True (thn (delete_monitor_tag (mt_tag_id tag) monitor_id (mt_value tag)) (ret failed))"
      by (intro sound_thn sound_requests sound_ret assms(1))
  next
    fix e
    show "sound P False
            (if is_auth_error e
             then if attempt < max_retries - 1
                  then thn ensure_authenticated
                         (remove_tag_attempts max_retries monitor_id tag rest failed)
                  else thn (print_msg (RemoveTagFailedAfterReauth e)) (ret True)
             else thn (print_msg (RemoveTagWarning e)) (ret True))"
      using Cons.IH assms(2) by (auto intro!: sound_thn sound_ensure_authenticated)
  qed
qed

lemma sound_remove_all_tags:
  assumes "\<And>tag. tag \<in> set monitor_tags \<Longrightarrow> P (DeleteMonitorTag (mt_tag_id tag) monitor_id (mt_value tag))"
    and "\<And>c. is_reauth_call c \<Longrightarrow> P c"
  shows "sound P False (remove_all_tags monitor_id monitor_tags)"
  unfolding remove_all_tags_def
  by (rule sound_for_each) (simp add: Let_def sound_remove_tag_attempts assms)



















section \<open>The tag resolver\<close>

lemma find_append_Some: "find P xs = Some x \<Longrightarrow> find P (xs @ ys) = Some x"
  by (induction xs) (auto split: if_splits)

lemma find_append_None: "find P xs = None \<Longrightarrow> find P (xs @ ys) = find P ys"
  by (induction xs) (auto split: if_splits)

lemma lookup_or_create_tag_result:
  assumes "lookup_or_create_tag tag_name w = (Done (Some t), w')"
  shows "map_option t_id (find (\<lambda>tag. t_name tag = tag_name) (srv_tags w')) = Some t"
proof (cases "find (\<lambda>tag. t_name tag = tag_name) (srv_tags w)")
  case (Some tag)
  with assms show ?thesis
    by (auto simp: lookup_or_create_tag_def get_tags_def api_call_eq bnd_def ret_apply
             split: list.splits option.splits)
next
  case None
  with assms show ?thesis
    by (auto simp: lookup_or_create_tag_def get_tags_def add_tag_def api_call_eq bnd_def ret_apply Let_def
                   find_append_None
             split: list.splits option.splits)
qed

lemma tag_attempts_result:
  assumes "tag_attempts max_retries tag_name ensure_auth_fn attempts w = (Done (Some t), w')"
  shows "map_option t_id (find (\<lambda>tag. t_name tag = tag_name) (srv_tags w')) = Some t"
  using assms
proof (induction attempts arbitrary: w)
  case Nil
  then show ?case by (simp add: ret_apply)
next
  case (Cons attempt rest)
  obtain r1 w1 where b: "lookup_or_create_tag tag_name w = (r1, w1)"
    by (cases "lookup_or_create_tag tag_name w")
  note p = Cons.prems[unfolded tag_attempts.simps]
  show ?case
  proof (cases r1)
    case (Done x)
    with p b have "lookup_or_create_tag tag_name w = (Done (Some t), w')"
      by (simp add: try_except_def)
    then show ?thesis by (rule lookup_or_create_tag_result)
  next
    case (Exit n)
    with p b show ?thesis by (simp add: try_except_def)
  next
    case (Raised e)
    show ?thesis
    proof (cases "if is_auth_error e \<and> attempt < max_retries - 1 then ensure_auth_fn else None")
      case None
      with p b Raised show ?thesis
        by (simp add: try_except_def thn_def bnd_def prog_apply)
    next
      case (Some ensure_auth)
      obtain r2 w2 where a: "ensure_auth w1 = (r2, w2)" by (cases "ensure_auth w1")
      from p b Raised Some a
      have "r2 = Done () \<and> tag_attempts max_retries tag_name ensure_auth_fn rest w2 = (Done (Some t), w')"
        by (cases r2) (simp_all add: try_except_def thn_def bnd_def)
      then show ?thesis using Cons.IH by blast
    qed
  qed
qed

lemma get_or_create_tag_lookup:
  assumes "map_option t_id (find (\<lambda>tag. t_name tag = tag_name) (srv_tags w)) = Some t"
    and "faults w = [] \<or> hd (faults w) = None"
  shows "get_or_create_tag tag_name ensure_auth_fn w
           = (Done (Some t), w\<lparr>trace := trace w @ [GetTags], faults := tl (faults w)\<rparr>)"
proof -
  have "[0..<2] = 0 # [1]" by (simp add: upt_rec)
  then show ?thesis
    using assms
    by (cases "faults w")
       (auto simp: get_or_create_tag_def lookup_or_create_tag_def Let_def try_except_def bnd_def
                   get_tags_def api_call_eq ret_apply split: option.splits)
qed

lemma sound_tag_attempts:
  assumes "P GetTags" and "P (AddTag tag_name ''#4299e1'')"
    and "\<And>f. ensure_auth_fn = Some f \<Longrightarrow> sound P False f"
  shows "sound P False (tag_attempts max_retries tag_name ensure_auth_fn attempts)"
proof (induction attempts)
  case Nil
  show ?case by simp
next
  case (Cons attempt rest)
  show ?case
    unfolding tag_attempts.simps
  proof (rule sound_try)
    show "sound P True (lookup_or_create_tag tag_name)"
      unfolding lookup_or_create_tag_def
      by (intro sound_bnd sound_requests assms(1))
         (auto split: option.splits intro!: sound_bnd sound_requests assms(2))
  next
    fix e
    show "sound P False
            (case if is_auth_error e \<and> attempt < max_retries - 1 then ensure_auth_fn else None of
               None \<Rightarrow> thn (print_msg (TagWarning tag_name e)) (ret None)
             | Some ensure_auth \<Rightarrow>
                 thn ensure_auth (tag_attempts max_retries tag_name ensure_auth_fn rest))"
      using Cons.IH assms(3) by (auto split: option.splits intro!: sound_thn)
  qed
qed

lemma sound_get_or_create_tag:
  assumes "P GetTags" and "P (AddTag tag_name ''#4299e1'')"
    and "\<And>c. is_reauth_call c \<Longrightarrow> P c"
  shows "sound P False (get_or_create_tag tag_name (Some ensure_authenticated))"
  unfolding get_or_create_tag_def Let_def
  by (rule sound_tag_attempts) (auto simp: assms sound_ensure_authenticated)

lemma get_or_create_tag_persistent_failure:
  assumes "faults w = Some e # fs" and "\<not> is_auth_error e"
  shows "fst (get_or_create_tag tag_name ensure_auth_fn w) = Done None"
proof -
  have "[0..<2] = 0 # [1]" by (simp add: upt_rec)
  then show ?thesis
    using assms
    by (simp add: get_or_create_tag_def lookup_or_create_tag_def Let_def try_except_def bnd_def
                  thn_def get_tags_def api_call_eq prog_apply)
qed


text \<open>
  C8. If a call of the tag resolver returns the identifier \<open>t\<close> for a name (having
  created the tag when it was absent), then any later call for the same name, in a
  world whose tag listing extends the one the first call left and whose next request
  does not fail, returns the same \<open>t\<close> after the listing request alone: nothing is
  created. The resolver never ends with an exception: it returns an identifier or
  \<open>None\<close>, or the process exits after a failed re-authentication; a request failing
  for another reason than an expired session, or again after the re-authentication,
  gives \<open>None\<close>.
\<close>

theorem get_or_create_tag_idempotent:
  "(get_or_create_tag tag_name ensure_auth_fn w = (Done (Some t), w1) \<longrightarrow>
      (\<forall>w2 more fn.
         srv_tags w2 = srv_tags w1 @ more \<and> (faults w2 = [] \<or> hd (faults w2) = None) \<longrightarrow>
         get_or_create_tag tag_name fn w2
           = (Done (Some t), w2\<lparr>trace := trace w2 @ [GetTags], faults := tl (faults w2)\<rparr>)))
   \<and> (case get_or_create_tag tag_name (Some ensure_authenticated) w of (r, w') \<Rightarrow>
         (\<forall>e. r \<noteq> Raised e) \<and> ((\<exists>v. r = Done v) \<or> (r = Exit 1 \<and> reauth_failed w')))
   \<and> (\<forall>e fs. faults w = Some e # fs \<and> \<not> is_auth_error e \<longrightarrow>
         fst (get_or_create_tag tag_name ensure_auth_fn w) = Done None)
   \<and> (\<forall>e1 d e2 fs. faults w = Some e1 # d # None # None # Some e2 # fs \<and> is_auth_error e1 \<longrightarrow>
         fst (get_or_create_tag tag_name (Some ensure_authenticated) w) = Done None)"
proof (intro conjI impI allI)
  fix w2 :: world and more :: "tag list" and fn :: "unit prog option"
  assume first: "get_or_create_tag tag_name ensure_auth_fn w = (Done (Some t), w1)"
    and later: "srv_tags w2 = srv_tags w1 @ more \<and> (faults w2 = [] \<or> hd (faults w2) = None)"
  from first have "map_option t_id (find (\<lambda>tag. t_name tag = tag_name) (srv_tags w1)) = Some t"
    unfolding get_or_create_tag_def Let_def by (rule tag_attempts_result)
  then obtain tag where "find (\<lambda>tag. t_name tag = tag_name) (srv_tags w1) = Some tag" "t_id tag = t"
    by auto
  then have "map_option t_id (find (\<lambda>tag. t_name tag = tag_name) (srv_tags w2)) = Some t"
    using later by (simp add: find_append_Some)
  then show "get_or_create_tag tag_name fn w2
           = (Done (Some t), w2\<lparr>trace := trace w2 @ [GetTags], faults := tl (faults w2)\<rparr>)"
    using later by (intro get_or_create_tag_lookup) auto
next
  obtain r w' where g: "get_or_create_tag tag_name (Some ensure_authenticated) w = (r, w')"
    by (cases "get_or_create_tag tag_name (Some ensure_authenticated) w")
  have "sound (\<lambda>c. True) False (get_or_create_tag tag_name (Some ensure_authenticated))"
    by (rule sound_get_or_create_tag) simp_all
  from soundD[OF this g]
  show "case get_or_create_tag tag_name (Some ensure_authenticated) w of (r, w') \<Rightarrow>
         (\<forall>e. r \<noteq> Raised e) \<and> ((\<exists>v. r = Done v) \<or> (r = Exit 1 \<and> reauth_failed w'))"
    unfolding g by (cases r) auto
next
  fix e fs
  assume "faults w = Some e # fs \<and> \<not> is_auth_error e"
  then show "fst (get_or_create_tag tag_name ensure_auth_fn w) = Done None"
    by (auto intro: get_or_create_tag_persistent_failure)
next
  fix e1 d e2 fs
  assume a: "faults w = Some e1 # d # None # None # Some e2 # fs \<and> is_auth_error e1"
  have "[0..<2] = 0 # [1]" by (simp add: upt_rec)
  then show "fst (get_or_create_tag tag_name (Some ensure_authenticated) w) = Done None"
    using a
    by (cases d)
       (simp_all add: get_or_create_tag_def lookup_or_create_tag_def Let_def try_except_def
          bnd_def thn_def get_tags_def api_call_eq prog_apply ensure_authenticated_def
          disconnect_def sio_connect_def login_def)
qed

theorem get_or_create_tag_idempotent_witness:
  "get_or_create_tag ''traefik'' (Some ensure_authenticated) empty_world
     = (Done (Some 1), snd (get_or_create_tag ''traefik'' (Some ensure_authenticated) empty_world))
   \<and> get_or_create_tag ''traefik'' (Some ensure_authenticated)
        (snd (get_or_create_tag ''traefik'' (Some ensure_authenticated) empty_world))
     = (Done (Some 1),
        (snd (get_or_create_tag ''traefik'' (Some ensure_authenticated) empty_world))
          \<lparr>trace := [GetTags, AddTag ''traefik'' ''#4299e1'', GetTags], faults := []\<rparr>)
   \<and> fst (get_or_create_tag ''traefik'' (Some ensure_authenticated)
             (failing_world [Some ''not logged in'', None, None, None, Some ''not logged in'']))
     = Done None"
proof -
  let ?w1 = "snd (get_or_create_tag ''traefik'' (Some ensure_authenticated) empty_world)"
  have f: "get_or_create_tag ''traefik'' (Some ensure_authenticated) empty_world = (Done (Some 1), ?w1)"
    by code_simp
  have t: "trace ?w1 = [GetTags, AddTag ''traefik'' ''#4299e1'']" and fl: "faults ?w1 = []"
    by code_simp+
  have a: "is_auth_error ''not logged in''" by code_simp
  have fw: "faults (failing_world [Some ''not logged in'', None, None, None, Some ''not logged in''])
              = Some ''not logged in'' # None # None # None # Some ''not logged in'' # []"
    by (simp add: failing_world_def empty_world_def)
  note th = get_or_create_tag_idempotent[of "''traefik''" "Some ensure_authenticated" empty_world 1 ?w1]
  from th f have "\<forall>w2 more fn.
         srv_tags w2 = srv_tags ?w1 @ more \<and> (faults w2 = [] \<or> hd (faults w2) = None) \<longrightarrow>
         get_or_create_tag ''traefik'' fn w2
           = (Done (Some 1), w2\<lparr>trace := trace w2 @ [GetTags], faults := tl (faults w2)\<rparr>)"
    by blast
  from this[rule_format, of ?w1 "[]" "Some ensure_authenticated"] fl
  have s: "get_or_create_tag ''traefik'' (Some ensure_authenticated) ?w1
     = (Done (Some 1), ?w1\<lparr>trace := [GetTags, AddTag ''traefik'' ''#4299e1'', GetTags], faults := []\<rparr>)"
    by (simp add: t)
  note th2 = get_or_create_tag_idempotent[of "''traefik''" "Some ensure_authenticated"
      "failing_world [Some ''not logged in'', None, None, None, Some ''not logged in'']" 1 ?w1]
  from th2 have "\<forall>e1 d e2 fs. faults (failing_world [Some ''not logged in'', None, None, None, Some ''not logged in''])
           = Some e1 # d # None # None # Some e2 # fs \<and> is_auth_error e1 \<longrightarrow>
         fst (get_or_create_tag ''traefik'' (Some ensure_authenticated)
                (failing_world [Some ''not logged in'', None, None, None, Some ''not logged in''])) = Done None"
    by blast
  from this[rule_format, of "''not logged in''" None "''not logged in''" "[]"] fw a
  have n: "fst (get_or_create_tag ''traefik'' (Some ensure_authenticated)
             (failing_world [Some ''not logged in'', None, None, None, Some ''not logged in'']))
     = Done None"
    by blast
  show ?thesis by (intro conjI f s n)
qed

section \<open>Requests of a whole run\<close>

lemma sound_update_monitor_tags:
  assumes A: "\<And>c. \<not> changes_inventory c \<Longrightarrow> P c"
  shows "sound P False (update_monitor_tags reset_tags monitor tag_id kind_tag_id tags_updated)"
proof -
  have add: "\<And>ids. sound P False (add_tags_to_monitor (m_id monitor) ids (Some ensure_authenticated))"
    by (rule sound_add_tags_to_monitor)
       (auto intro!: A sound_ensure_authenticated simp: changes_inventory_def is_reauth_call_def)
  have rm: "sound P False (remove_all_tags (m_id monitor) (m_tags monitor))"
    by (rule sound_remove_all_tags)
       (auto intro!: A simp: changes_inventory_def is_reauth_call_def)
  show ?thesis
    unfolding update_monitor_tags_def Let_def
    by (auto intro!: sound_bnd sound_thn add rm)
qed

lemma sound_traefik_tag_phase:
  assumes A: "\<And>c. \<not> changes_inventory c \<Longrightarrow> P c"
  shows "sound P False (traefik_tag_phase reset_tags monitors tag_id traefik_tag_id hosts existing_urls)"
  unfolding traefik_tag_phase_def Let_def
  by (rule sound_for_each) (auto split: option.splits intro!: sound_update_monitor_tags A)

lemma sound_docker_tag_phase:
  assumes A: "\<And>c. \<not> changes_inventory c \<Longrightarrow> P c"
  shows "sound P False (docker_tag_phase reset_tags monitors tag_id docker_tag_id docker_host_id containers)"
  unfolding docker_tag_phase_def
  by (rule sound_for_each) (auto split: option.splits intro!: sound_update_monitor_tags A)

lemma sound_create_http_monitor:
  assumes A: "\<And>c. \<not> changes_inventory c \<Longrightarrow> P c"
    and C: "\<And>hostname. urlparse_netloc host = Inr hostname
              \<Longrightarrow> P (AddMonitor (http_config hostname host))"
  shows "sound P True (create_http_monitor urlparse_netloc tag_id traefik_tag_id host st)"
proof -
  have add: "\<And>i ids. sound P b (add_tags_to_monitor i ids (Some ensure_authenticated))" for b
    by (rule sound_weaken, rule sound_add_tags_to_monitor)
       (auto intro!: A sound_ensure_authenticated simp: changes_inventory_def is_reauth_call_def)
  obtain existing_urls total_created where st: "st = (existing_urls, total_created)"
    by (cases st)
  show ?thesis
  proof (cases "urlparse_netloc host")
    case (Inl e)
    then show ?thesis by (simp add: create_http_monitor_def st)
  next
    case (Inr hostname)
    have "sound P True
            (try_except
               (bnd (add_monitor (http_config hostname host)) (\<lambda>monitor_id.
                  thn (case (if truthy monitor_id then monitor_id else None) of
                         Some i \<Rightarrow> add_tags_to_monitor i [tag_id, traefik_tag_id]
                                     (Some ensure_authenticated)
                       | None \<Rightarrow> ret ())
                      (thn (print_msg (Created monitor_id))
                           (ret (insert host existing_urls, total_created + 1)))))
               (\<lambda>e. thn (print_msg (CreateFailed e)) (ret (existing_urls, total_created))))"
      by (auto intro!: sound_try sound_bnd sound_thn sound_requests C[OF Inr] add
               split: option.splits)
    then show ?thesis by (simp add: create_http_monitor_def st Inr)
  qed
qed

lemma sound_create_docker_monitor:
  assumes A: "\<And>c. \<not> changes_inventory c \<Longrightarrow> P c"
    and C: "P (AddMonitor (DockerConfig container_name container_name docker_host_id))"
  shows "sound P False (create_docker_monitor tag_id docker_tag_id docker_host_id container_name total_created)"
proof -
  have add: "\<And>i ids. sound P b (add_tags_to_monitor i ids (Some ensure_authenticated))" for b
    by (rule sound_weaken, rule sound_add_tags_to_monitor)
       (auto intro!: A sound_ensure_authenticated simp: changes_inventory_def is_reauth_call_def)
  show ?thesis
    unfolding create_docker_monitor_def
    by (auto intro!: sound_try sound_bnd sound_thn sound_requests C add split: option.splits)
qed

lemma sound_get_docker_host_id:
  assumes "P GetDockerHosts" and "\<And>c. is_reauth_call c \<Longrightarrow> P c"
  shows "sound P False (get_docker_host_id docker_host_name (Some ensure_authenticated))"
proof -
  have "sound P False (docker_host_attempts max_retries docker_host_name (Some ensure_authenticated) attempts)"
    for max_retries attempts
  proof (induction attempts)
    case Nil
    show ?case by simp
  next
    case (Cons attempt rest)
    show ?case
      unfolding docker_host_attempts.simps
    proof (rule sound_try)
      show "sound P True (lookup_docker_host docker_host_name)"
        unfolding lookup_docker_host_def
        by (intro sound_bnd sound_requests assms(1))
           (auto split: option.splits intro!: sound_thn)
    next
      fix e
      show "sound P False
              (case if is_auth_error e \<and> attempt < max_retries - 1 then Some ensure_authenticated else None of
                 None \<Rightarrow> thn (print_msg (DockerHostsWarning e)) (ret None)
               | Some ensure_auth \<Rightarrow>
                   thn ensure_auth
                     (docker_host_attempts max_retries docker_host_name (Some ensure_authenticated) rest))"
        using Cons.IH assms(2)
        by (auto split: option.splits intro!: sound_thn sound_ensure_authenticated)
    qed
  qed
  then show ?thesis unfolding get_docker_host_id_def Let_def .
qed

lemma sound_resolver:
  assumes A: "\<And>c. \<not> changes_inventory c \<Longrightarrow> P c"
  shows "sound P False (get_or_create_tag tag_name (Some ensure_authenticated))"
  by (rule sound_get_or_create_tag)
     (auto intro!: A simp: changes_inventory_def is_reauth_call_def)

lemma sound_process_traefik:
  assumes A: "\<And>c. \<not> changes_inventory c \<Longrightarrow> P c"
    and C: "\<And>h hosts hostname.
              filter_ignored (fnmatch_fn env) (netloc_fn env) ignore_patterns
                (extract_hosts_from_traefik (traefik_net env) (g_url traefik_info)) = Inr hosts
              \<Longrightarrow> h \<in> set (missing_hosts hosts (fst st))
              \<Longrightarrow> netloc_fn env h = Inr hostname
              \<Longrightarrow> P (AddMonitor (http_config hostname h))"
  shows "sound P True
           (process_traefik env ignore_patterns reset_tags monitors traefik_tag_id traefik_info st)"
proof -
  let ?found = "extract_hosts_from_traefik (traefik_net env) (g_url traefik_info)"
  show ?thesis
  proof (cases "filter_ignored (fnmatch_fn env) (netloc_fn env) ignore_patterns ?found")
    case (Inl e)
    then show ?thesis by (simp add: process_traefik_def Let_def)
  next
    case (Inr hosts)
    have "sound P True
            (bnd (if g_group traefik_info \<noteq> []
                  then get_or_create_tag (g_group traefik_info) (Some ensure_authenticated)
                  else ret None) (\<lambda>tag_id.
             thn (if truthy tag_id
                  then traefik_tag_phase reset_tags monitors tag_id traefik_tag_id hosts (fst st)
                  else ret 0)
                 (for_each (missing_hosts hosts (fst st))
                    (create_http_monitor (netloc_fn env) tag_id traefik_tag_id) st)))"
    proof (intro sound_bnd sound_thn sound_for_each)
      fix tag_id h s
      assume h: "h \<in> set (missing_hosts hosts (fst st))"
      show "sound P True (create_http_monitor (netloc_fn env) tag_id traefik_tag_id h s)"
        by (rule sound_create_http_monitor[OF A]) (auto intro: C[OF Inr h])
    next
      show "sound P True (if g_group traefik_info \<noteq> []
                  then get_or_create_tag (g_group traefik_info) (Some ensure_authenticated)
                  else ret None)"
        by (auto intro!: sound_weaken[OF sound_resolver] A)
    next
      fix tag_id
      show "sound P True (if truthy tag_id
                  then traefik_tag_phase reset_tags monitors tag_id traefik_tag_id hosts (fst st)
                  else ret 0)"
        by (auto intro!: sound_weaken[OF sound_traefik_tag_phase] A)
    qed
    then show ?thesis by (simp add: process_traefik_def Let_def Inr)
  qed
qed

lemma sound_process_docker:
  assumes A: "\<And>c. \<not> changes_inventory c \<Longrightarrow> P c"
    and C: "\<And>name host. name \<in> set (extract_containers_from_docker (docker_net env) (g_url docker_info))
              \<Longrightarrow> P (AddMonitor (DockerConfig name name host))"
  shows "sound P False (process_docker env reset_tags monitors docker_info total_created)"
  unfolding process_docker_def Let_def
  by (auto intro!: sound_bnd sound_thn sound_for_each sound_resolver sound_docker_tag_phase
                   sound_create_docker_monitor sound_get_docker_host_id A C
           simp: missing_containers_def changes_inventory_def is_reauth_call_def)

lemma sound_sync_groups:
  assumes A: "\<And>c. \<not> changes_inventory c \<Longrightarrow> P c"
    and C: "\<And>h hosts hostname g. g \<in> set traefik_servers \<Longrightarrow>
              filter_ignored (fnmatch_fn env) (netloc_fn env) ignore_patterns
                (extract_hosts_from_traefik (traefik_net env) (g_url g)) = Inr hosts
              \<Longrightarrow> h \<in> set hosts
              \<Longrightarrow> netloc_fn env h = Inr hostname
              \<Longrightarrow> P (AddMonitor (http_config hostname h))"
    and D: "\<And>name host g. g \<in> set docker_servers \<Longrightarrow>
              name \<in> set (extract_containers_from_docker (docker_net env) (g_url g))
              \<Longrightarrow> P (AddMonitor (DockerConfig name name host))"
  shows "sound P True
           (sync_groups env traefik_servers docker_servers ignore_patterns reset_tags monitors)"
proof -
  have T: "sound P True (process_traefik env ignore_patterns reset_tags monitors t g st)"
    if "g \<in> set traefik_servers" for g st t
    by (rule sound_process_traefik[OF A]) (use that in \<open>auto simp: missing_hosts_def intro: C\<close>)
  have K: "sound P True (process_docker env reset_tags monitors g n)"
    if "g \<in> set docker_servers" for g n
    by (rule sound_weaken, rule sound_process_docker[OF A]) (use that in \<open>auto intro: D\<close>)
  show ?thesis
    unfolding sync_groups_def
    by (intro sound_bnd sound_thn sound_for_each sound_weaken[OF sound_resolver] T K)
       (auto intro: A)
qed

section \<open>Pruning\<close>

lemma delete_loop:
  "\<exists>n' w1 msgs.
     for_each R
       (\<lambda>monitor total_removed.
          try_except
            (thn (delete_monitor (m_id monitor))
                 (thn (print_msg (Removed (m_id monitor))) (ret (total_removed + 1))))
            (\<lambda>e. thn (print_msg (RemoveFailed (m_id monitor) e)) (ret total_removed)))
       (n::nat) w = (Done n', w1)
     \<and> trace w1 = trace w @ map (\<lambda>m. DeleteMonitor (m_id m)) R
     \<and> printed w1 = printed w @ msgs
     \<and> list_all2 removal_report R msgs"
proof (induction R arbitrary: n w)
  case Nil
  show ?case by (simp add: ret_apply)
next
  case (Cons m R)
  let ?body = "\<lambda>monitor total_removed.
          try_except
            (thn (delete_monitor (m_id monitor))
                 (thn (print_msg (Removed (m_id monitor))) (ret (total_removed + 1))))
            (\<lambda>e. thn (print_msg (RemoveFailed (m_id monitor) e)) (ret total_removed))"
  have "\<exists>n1 w0 msg. ?body m n w = (Done n1, w0) \<and> trace w0 = trace w @ [DeleteMonitor (m_id m)]
          \<and> printed w0 = printed w @ [msg] \<and> removal_report m msg"
    by (cases "faults w" rule: list.exhaust[case_names Nil Cons])
       (auto simp: try_except_def thn_def bnd_def delete_monitor_def api_call_eq prog_apply
                   removal_report_def split: option.splits)
  then obtain n1 w0 msg where b: "?body m n w = (Done n1, w0)"
    and t0: "trace w0 = trace w @ [DeleteMonitor (m_id m)]"
    and p0: "printed w0 = printed w @ [msg]" and r0: "removal_report m msg"
    by blast
  from Cons.IH[of n1 w0] obtain n' w1 msgs where
    l: "for_each R ?body n1 w0 = (Done n', w1)"
    and t1: "trace w1 = trace w0 @ map (\<lambda>m. DeleteMonitor (m_id m)) R"
    and p1: "printed w1 = printed w0 @ msgs" and r1: "list_all2 removal_report R msgs"
    by blast
  have "for_each (m # R) ?body n w = (Done n', w1)"
    using b l by (simp add: bnd_def)
  moreover have "trace w1 = trace w @ map (\<lambda>m. DeleteMonitor (m_id m)) (m # R)"
    using t0 t1 by simp
  moreover have "printed w1 = printed w @ (msg # msgs)" using p0 p1 by simp
  moreover have "list_all2 removal_report (m # R) (msg # msgs)" using r0 r1 by simp
  ultimately show ?case by blast
qed

lemma get_monitors_world:
  "\<exists>r. get_monitors w = (r, w\<lparr>trace := trace w @ [GetMonitors], faults := tl (faults w)\<rparr>)
       \<and> (\<forall>ms. r = Done ms \<longrightarrow> ms = srv_monitors w) \<and> (\<forall>n. r \<noteq> Exit n)"
  by (cases "faults w" rule: list.exhaust[case_names Nil Cons])
     (auto simp: get_monitors_def api_call_eq split: option.splits)

lemma monitors_to_remove_Inr:
  "monitors_to_remove fnmatch urlparse_netloc ignore_patterns monitors = Inr to_remove \<Longrightarrow>
     to_remove = filter (\<lambda>m. m_url m \<noteq> []
                          \<and> should_ignore fnmatch urlparse_netloc (m_url m) ignore_patterns = Inr True)
                   monitors
     \<and> (\<forall>m \<in> set monitors. m_url m \<noteq> [] \<longrightarrow>
           (\<exists>b. should_ignore fnmatch urlparse_netloc (m_url m) ignore_patterns = Inr b))"
proof (induction monitors arbitrary: to_remove)
  case Nil
  then show ?case by simp
next
  case (Cons m ms)
  show ?case
  proof (cases "m_url m = []")
    case True
    with Cons.prems have "monitors_to_remove fnmatch urlparse_netloc ignore_patterns ms = Inr to_remove"
      by simp
    from Cons.IH[OF this] True show ?thesis by simp
  next
    case False
    with Cons.prems obtain b rest where
      b: "should_ignore fnmatch urlparse_netloc (m_url m) ignore_patterns = Inr b"
      and r: "monitors_to_remove fnmatch urlparse_netloc ignore_patterns ms = Inr rest"
      and t: "to_remove = (if b then m # rest else rest)"
      by (auto split: sum.splits)
    from Cons.IH[OF r] False b t show ?thesis by auto
  qed
qed

lemma monitors_to_remove_Inl:
  "monitors_to_remove fnmatch urlparse_netloc ignore_patterns monitors = Inl e \<Longrightarrow>
     \<exists>m \<in> set monitors. m_url m \<noteq> []
        \<and> should_ignore fnmatch urlparse_netloc (m_url m) ignore_patterns = Inl e"
proof (induction monitors)
  case Nil
  then show ?case by simp
next
  case (Cons m ms)
  show ?case
  proof (cases "m_url m = []")
    case True
    with Cons show ?thesis by simp
  next
    case False
    show ?thesis
    proof (cases "should_ignore fnmatch urlparse_netloc (m_url m) ignore_patterns")
      case (Inl e')
      with Cons.prems False show ?thesis by simp
    next
      case (Inr b)
      with Cons.prems False
      have "monitors_to_remove fnmatch urlparse_netloc ignore_patterns ms = Inl e"
        by (simp split: sum.splits)
      from Cons.IH[OF this] show ?thesis by auto
    qed
  qed
qed

lemma monitors_to_remove_no_patterns [simp]:
  "monitors_to_remove fnmatch urlparse_netloc [] monitors = Inr []"
  by (induction monitors) (simp_all add: should_ignore_def)

lemma prune_requests:
  assumes "ignore_patterns \<noteq> []"
    and R: "monitors_to_remove fnmatch urlparse_netloc ignore_patterns monitors = Inr to_remove"
    and "prune fnmatch urlparse_netloc ignore_patterns monitors w = (r, w')"
  shows "trace w' = trace w
           @ map (\<lambda>m. DeleteMonitor (m_id m)) to_remove
           @ (if to_remove = [] then [] else [GetMonitors])"
    and "\<exists>msgs. printed w' = printed w @ msgs \<and> list_all2 removal_report to_remove msgs"
    and "to_remove = [] \<longrightarrow> r = Done monitors"
    and "to_remove \<noteq> [] \<longrightarrow>
           (\<forall>ms. r = Done ms \<longrightarrow> ms = srv_monitors w') \<and> (\<forall>n. r \<noteq> Exit n)"
proof -
  let ?R = to_remove
  let ?body = "\<lambda>monitor total_removed.
          try_except
            (thn (delete_monitor (m_id monitor))
                 (thn (print_msg (Removed (m_id monitor))) (ret (total_removed + 1))))
            (\<lambda>e. thn (print_msg (RemoveFailed (m_id monitor) e)) (ret total_removed))"
  have all: "trace w' = trace w @ map (\<lambda>m. DeleteMonitor (m_id m)) ?R @ (if ?R = [] then [] else [GetMonitors])
     \<and> (\<exists>msgs. printed w' = printed w @ msgs \<and> list_all2 removal_report ?R msgs)
     \<and> (?R = [] \<longrightarrow> r = Done monitors)
     \<and> (?R \<noteq> [] \<longrightarrow> (\<forall>ms. r = Done ms \<longrightarrow> ms = srv_monitors w') \<and> (\<forall>n. r \<noteq> Exit n))"
  proof (cases "?R = []")
    case True
    with assms show ?thesis by (simp add: prune_def ret_apply)
  next
    case False
    from delete_loop[of ?R 0 w] obtain n' w1 msgs where
      l: "for_each ?R ?body (0::nat) w = (Done n', w1)"
      and t1: "trace w1 = trace w @ map (\<lambda>m. DeleteMonitor (m_id m)) ?R"
      and p1: "printed w1 = printed w @ msgs" and r1: "list_all2 removal_report ?R msgs"
      by blast
    from get_monitors_world[of w1] obtain r2 where
      g: "get_monitors w1 = (r2, w1\<lparr>trace := trace w1 @ [GetMonitors], faults := tl (faults w1)\<rparr>)"
      and gd: "\<forall>ms. r2 = Done ms \<longrightarrow> ms = srv_monitors w1" and ge: "\<forall>n. r2 \<noteq> Exit n"
      by blast
    have "prune fnmatch urlparse_netloc ignore_patterns monitors w = get_monitors w1"
      using assms(1) R False l by (simp add: prune_def thn_def bnd_def)
    with assms(3) g have "r = r2" "w' = w1\<lparr>trace := trace w1 @ [GetMonitors], faults := tl (faults w1)\<rparr>"
      by simp_all
    then show ?thesis using False t1 p1 r1 gd ge by auto
  qed
  from all show "trace w' = trace w @ map (\<lambda>m. DeleteMonitor (m_id m)) ?R @ (if ?R = [] then [] else [GetMonitors])"
    by blast
  from all show "\<exists>msgs. printed w' = printed w @ msgs \<and> list_all2 removal_report ?R msgs"
    by blast
  from all show "?R = [] \<longrightarrow> r = Done monitors" by blast
  from all show "?R \<noteq> [] \<longrightarrow> (\<forall>ms. r = Done ms \<longrightarrow> ms = srv_monitors w') \<and> (\<forall>n. r \<noteq> Exit n)"
    by blast
qed

lemma prune_raises:
  assumes "ignore_patterns \<noteq> []"
    and "monitors_to_remove fnmatch urlparse_netloc ignore_patterns monitors = Inl e"
  shows "prune fnmatch urlparse_netloc ignore_patterns monitors w = (Raised e, w)"
  using assms by (simp add: prune_def raise_apply)

lemma sync_groups_no_delete:
  assumes "sync_groups env traefik_servers docker_servers ignore_patterns reset_tags monitors w = (r, w')"
  shows "\<exists>cs. trace w' = trace w @ cs \<and> (\<forall>i. DeleteMonitor i \<notin> set cs)"
proof -
  have "sound (\<lambda>c. \<forall>i. c \<noteq> DeleteMonitor i) True
          (sync_groups env traefik_servers docker_servers ignore_patterns reset_tags monitors)"
    by (rule sound_sync_groups) (auto simp: changes_inventory_def split: call.splits)
  from soundD[OF this assms] obtain cs where "trace w' = trace w @ cs"
    and "\<forall>c \<in> set cs. \<forall>i. c \<noteq> DeleteMonitor i"
    by (auto simp: extends_def list_all_iff)
  then show ?thesis by blast
qed

lemma sync_body_to_pruning:
  assumes "reaches_pruning w"
  shows "\<exists>wb. trace wb = trace w @ [Login, GetMonitors] \<and> printed wb = printed w
           \<and> sync_body env traefik_servers docker_servers ignore_patterns reset_tags w =
               bnd (prune (fnmatch_fn env) (netloc_fn env) ignore_patterns (srv_monitors w))
                   (sync_groups env traefik_servers docker_servers ignore_patterns reset_tags) wb"
proof -
  define wa where "wa = w\<lparr>trace := trace w @ [Login], faults := tl (faults w)\<rparr>"
  define wb where "wb = wa\<lparr>trace := trace wa @ [GetMonitors], faults := tl (faults wa)\<rparr>"
  have l: "login w = (Done (), wa)"
    using assms
    by (cases "faults w" rule: list.exhaust[case_names Nil Cons])
       (auto simp: login_def api_call_eq wa_def reaches_pruning_def split: list.splits option.splits)
  have g: "get_monitors wa = (Done (srv_monitors w), wb)"
    using assms
    by (cases "faults w" rule: list.exhaust[case_names Nil Cons])
       (auto simp: get_monitors_def api_call_eq wa_def wb_def reaches_pruning_def
             split: list.splits option.splits)
  have tb: "trace wb = trace w @ [Login, GetMonitors]" "printed wb = printed w"
    by (simp_all add: wa_def wb_def)
  have "sync_body env traefik_servers docker_servers ignore_patterns reset_tags w =
               bnd (prune (fnmatch_fn env) (netloc_fn env) ignore_patterns (srv_monitors w))
                   (sync_groups env traefik_servers docker_servers ignore_patterns reset_tags) wb"
    using l g by (simp add: sync_body_def thn_def bnd_def)
  with tb show ?thesis by blast
qed

lemma sync_body_requests:
  assumes "reaches_pruning w"
    and R: "monitors_to_remove (fnmatch_fn env) (netloc_fn env) ignore_patterns (srv_monitors w)
              = Inr to_remove"
    and "sync_body env traefik_servers docker_servers ignore_patterns reset_tags w = (r, w')"
  shows "\<exists>rest. new_calls w w' =
           Login # GetMonitors
             # map (\<lambda>m. DeleteMonitor (m_id m)) to_remove
             @ (if to_remove = [] then [] else [GetMonitors])
             @ rest
           \<and> (\<forall>i. DeleteMonitor i \<notin> set rest)"
proof -
  let ?dels = "map (\<lambda>m. DeleteMonitor (m_id m)) to_remove @ (if to_remove = [] then [] else [GetMonitors])"
  from sync_body_to_pruning[OF assms(1), of env traefik_servers docker_servers ignore_patterns reset_tags]
  obtain wb where tb: "trace wb = trace w @ [Login, GetMonitors]"
    and sb: "sync_body env traefik_servers docker_servers ignore_patterns reset_tags w =
               bnd (prune (fnmatch_fn env) (netloc_fn env) ignore_patterns (srv_monitors w))
                   (sync_groups env traefik_servers docker_servers ignore_patterns reset_tags) wb"
    by blast
  obtain rp wc where p: "prune (fnmatch_fn env) (netloc_fn env) ignore_patterns (srv_monitors w) wb = (rp, wc)"
    by (cases "prune (fnmatch_fn env) (netloc_fn env) ignore_patterns (srv_monitors w) wb")
  have tc: "trace wc = trace wb @ ?dels"
  proof (cases "ignore_patterns = []")
    case True
    with p R show ?thesis by (simp add: prune_def ret_apply)
  next
    case False
    from prune_requests(1)[OF False R p] show ?thesis .
  qed
  have body: "sync_body env traefik_servers docker_servers ignore_patterns reset_tags w =
      (case rp of
         Done ms \<Rightarrow> sync_groups env traefik_servers docker_servers ignore_patterns reset_tags ms wc
       | Raised e \<Rightarrow> (Raised e, wc)
       | Exit n \<Rightarrow> (Exit n, wc))"
    using sb p by (cases rp) (simp_all add: bnd_def)
  have "\<exists>rest. trace w' = trace wc @ rest \<and> (\<forall>i. DeleteMonitor i \<notin> set rest)"
  proof (cases rp)
    case (Done ms)
    with body assms(3)
    have "sync_groups env traefik_servers docker_servers ignore_patterns reset_tags ms wc = (r, w')"
      by simp
    then show ?thesis by (rule sync_groups_no_delete)
  next
    case (Raised e)
    with body assms(3) have "w' = wc" by simp
    then show ?thesis by simp
  next
    case (Exit n)
    with body assms(3) have "w' = wc" by simp
    then show ?thesis by simp
  qed
  then obtain rest where "trace w' = trace wc @ rest" and nd: "\<forall>i. DeleteMonitor i \<notin> set rest"
    by blast
  then have "new_calls w w' = Login # GetMonitors # ?dels @ rest"
    using tb tc by (simp add: new_calls_def)
  with nd show ?thesis by (intro exI[of _ rest]) simp
qed

lemma sync_body_raises:
  assumes "reaches_pruning w"
    and R: "monitors_to_remove (fnmatch_fn env) (netloc_fn env) ignore_patterns (srv_monitors w)
              = Inl e"
    and b: "sync_body env traefik_servers docker_servers ignore_patterns reset_tags w = (r, w')"
  shows "r = Raised e \<and> new_calls w w' = [Login, GetMonitors] \<and> printed w' = printed w"
proof -
  from sync_body_to_pruning[OF assms(1), of env traefik_servers docker_servers ignore_patterns reset_tags]
  obtain wb where tb: "trace wb = trace w @ [Login, GetMonitors]" and pb: "printed wb = printed w"
    and sb: "sync_body env traefik_servers docker_servers ignore_patterns reset_tags w =
               bnd (prune (fnmatch_fn env) (netloc_fn env) ignore_patterns (srv_monitors w))
                   (sync_groups env traefik_servers docker_servers ignore_patterns reset_tags) wb"
    by blast
  have ne: "ignore_patterns \<noteq> []"
    using R by (cases "ignore_patterns = []") simp_all
  from sb b prune_raises[OF ne R, of wb] have "r = Raised e" "w' = wb"
    by (simp_all add: bnd_def)
  with tb pb show ?thesis by (simp add: new_calls_def)
qed

lemma fatal_error_exits:
  assumes n: "new_api w0 = (Done (), w)"
    and b: "sync_body env traefik_servers docker_servers ignore_patterns reset_tags w = (Raised e, w1)"
    and s: "sync_monitors env traefik_servers docker_servers ignore_patterns reset_tags w0 = (r, w')"
  shows "r = Exit 1 \<and> new_calls w1 w' = [Disconnect] \<and> printed w' = printed w1 @ [FatalError e]"
proof -
  define w2 where "w2 = w1\<lparr>printed := printed w1 @ [FatalError e]\<rparr>"
  have t: "try_except
             (sync_body env traefik_servers docker_servers ignore_patterns reset_tags)
             (\<lambda>e. thn (print_msg (FatalError e)) (sys_exit 1)) w = (Exit 1, w2)"
    using b by (simp add: try_except_def thn_def bnd_def prog_apply w2_def)
  obtain rd w3 where d: "try_except disconnect (\<lambda>_. ret ()) w2 = (rd, w3)"
    by (cases "try_except disconnect (\<lambda>_. ret ()) w2")
  have d3: "rd = Done () \<and> trace w3 = trace w2 @ [Disconnect] \<and> printed w3 = printed w2"
    using d
    by (cases "faults w2" rule: list.exhaust[case_names Nil Cons])
       (auto simp: try_except_def disconnect_def api_call_eq ret_apply split: option.splits)
  have "sync_monitors env traefik_servers docker_servers ignore_patterns reset_tags w0 = (Exit 1, w3)"
    using n t d d3 by (simp add: sync_monitors_def thn_def bnd_def try_finally_def)
  with s have "r = Exit 1" "w' = w3" by simp_all
  with d3 show ?thesis by (simp add: new_calls_def w2_def)
qed

text \<open>
  C3, as the code has it. The monitors to remove are the monitors of the first
  listing whose URL is non-empty and matches an ignore pattern, in the order of the
  listing (the name is not looked at); the selection fails when the library rejects
  the URL of a listed monitor, with the error of the first such URL. With patterns
  configured, pruning requests the deletion of each selected monitor, in order,
  whatever requests fail, prints for each either that it was removed or that its
  removal failed, and, when there was at least one, lists the monitors again and
  continues with that listing; when the selection fails, pruning raises that error
  and has sent nothing. In a run that gets as far as pruning, these requests follow
  the login and the first listing, and no later request deletes a monitor; when the
  selection fails, the login and the first listing are the only requests of the run
  body, and the run prints the error, disconnects and exits with status 1.
\<close>

theorem prune_before_groups:
  "(case monitors_to_remove fnmatch urlparse_netloc ignore_patterns monitors of
      Inr to_remove \<Rightarrow>
        to_remove = filter (\<lambda>m. m_url m \<noteq> []
                             \<and> should_ignore fnmatch urlparse_netloc (m_url m) ignore_patterns = Inr True)
                      monitors
        \<and> (\<forall>m \<in> set monitors. m_url m \<noteq> [] \<longrightarrow>
              (\<exists>b. should_ignore fnmatch urlparse_netloc (m_url m) ignore_patterns = Inr b))
    | Inl e \<Rightarrow>
        (\<exists>m \<in> set monitors. m_url m \<noteq> []
            \<and> should_ignore fnmatch urlparse_netloc (m_url m) ignore_patterns = Inl e))
   \<and> (ignore_patterns \<noteq> [] \<longrightarrow>
       (case prune fnmatch urlparse_netloc ignore_patterns monitors w of (r, w') \<Rightarrow>
          (case monitors_to_remove fnmatch urlparse_netloc ignore_patterns monitors of
             Inr to_remove \<Rightarrow>
               new_calls w w' =
                 map (\<lambda>m. DeleteMonitor (m_id m)) to_remove
                 @ (if to_remove = [] then [] else [GetMonitors])
               \<and> (\<exists>msgs. printed w' = printed w @ msgs \<and> list_all2 removal_report to_remove msgs)
               \<and> (to_remove = [] \<longrightarrow> r = Done monitors)
               \<and> (to_remove \<noteq> [] \<longrightarrow> (\<forall>ms. r = Done ms \<longrightarrow> ms = srv_monitors w'))
           | Inl e \<Rightarrow> r = Raised e \<and> w' = w)))
   \<and> (reaches_pruning w \<longrightarrow>
       (case sync_body env traefik_servers docker_servers ignore_patterns reset_tags w of
          (r, w') \<Rightarrow>
            (case monitors_to_remove (fnmatch_fn env) (netloc_fn env) ignore_patterns
                    (srv_monitors w) of
               Inr to_remove \<Rightarrow>
                 (\<exists>rest. new_calls w w' =
                    Login # GetMonitors
                      # map (\<lambda>m. DeleteMonitor (m_id m)) to_remove
                      @ (if to_remove = [] then [] else [GetMonitors])
                      @ rest
                    \<and> (\<forall>i. DeleteMonitor i \<notin> set rest))
             | Inl e \<Rightarrow>
                 r = Raised e \<and> new_calls w w' = [Login, GetMonitors] \<and> printed w' = printed w)))
   \<and> (\<forall>w0 e w1.
        new_api w0 = (Done (), w)
        \<and> sync_body env traefik_servers docker_servers ignore_patterns reset_tags w = (Raised e, w1)
        \<longrightarrow> (case sync_monitors env traefik_servers docker_servers ignore_patterns reset_tags w0 of
               (r, w') \<Rightarrow>
                 r = Exit 1 \<and> new_calls w1 w' = [Disconnect]
                 \<and> printed w' = printed w1 @ [FatalError e]))"
proof (intro conjI impI allI)
  show "case monitors_to_remove fnmatch urlparse_netloc ignore_patterns monitors of
      Inr to_remove \<Rightarrow>
        to_remove = filter (\<lambda>m. m_url m \<noteq> []
                             \<and> should_ignore fnmatch urlparse_netloc (m_url m) ignore_patterns = Inr True)
                      monitors
        \<and> (\<forall>m \<in> set monitors. m_url m \<noteq> [] \<longrightarrow>
              (\<exists>b. should_ignore fnmatch urlparse_netloc (m_url m) ignore_patterns = Inr b))
    | Inl e \<Rightarrow>
        (\<exists>m \<in> set monitors. m_url m \<noteq> []
            \<and> should_ignore fnmatch urlparse_netloc (m_url m) ignore_patterns = Inl e)"
  proof (cases "monitors_to_remove fnmatch urlparse_netloc ignore_patterns monitors")
    case (Inl e)
    from monitors_to_remove_Inl[OF this] show ?thesis by (simp add: Inl)
  next
    case (Inr to_remove)
    from monitors_to_remove_Inr[OF this] show ?thesis by (simp add: Inr)
  qed
next
  assume ne: "ignore_patterns \<noteq> []"
  obtain r w' where p: "prune fnmatch urlparse_netloc ignore_patterns monitors w = (r, w')"
    by (cases "prune fnmatch urlparse_netloc ignore_patterns monitors w")
  show "case prune fnmatch urlparse_netloc ignore_patterns monitors w of (r, w') \<Rightarrow>
          (case monitors_to_remove fnmatch urlparse_netloc ignore_patterns monitors of
             Inr to_remove \<Rightarrow>
               new_calls w w' =
                 map (\<lambda>m. DeleteMonitor (m_id m)) to_remove
                 @ (if to_remove = [] then [] else [GetMonitors])
               \<and> (\<exists>msgs. printed w' = printed w @ msgs \<and> list_all2 removal_report to_remove msgs)
               \<and> (to_remove = [] \<longrightarrow> r = Done monitors)
               \<and> (to_remove \<noteq> [] \<longrightarrow> (\<forall>ms. r = Done ms \<longrightarrow> ms = srv_monitors w'))
           | Inl e \<Rightarrow> r = Raised e \<and> w' = w)"
  proof (cases "monitors_to_remove fnmatch urlparse_netloc ignore_patterns monitors")
    case (Inl e)
    from prune_raises[OF ne this, of w] p show ?thesis by (simp add: Inl)
  next
    case (Inr to_remove)
    note q = prune_requests[OF ne Inr p]
    have "new_calls w w' =
            map (\<lambda>m. DeleteMonitor (m_id m)) to_remove @ (if to_remove = [] then [] else [GetMonitors])"
      using q(1) by (simp add: new_calls_def)
    with q(2,3,4) show ?thesis unfolding p prod.case Inr sum.case by blast
  qed
next
  assume rp: "reaches_pruning w"
  obtain r w' where b: "sync_body env traefik_servers docker_servers ignore_patterns reset_tags w = (r, w')"
    by (cases "sync_body env traefik_servers docker_servers ignore_patterns reset_tags w")
  show "case sync_body env traefik_servers docker_servers ignore_patterns reset_tags w of
          (r, w') \<Rightarrow>
            (case monitors_to_remove (fnmatch_fn env) (netloc_fn env) ignore_patterns
                    (srv_monitors w) of
               Inr to_remove \<Rightarrow>
                 (\<exists>rest. new_calls w w' =
                    Login # GetMonitors
                      # map (\<lambda>m. DeleteMonitor (m_id m)) to_remove
                      @ (if to_remove = [] then [] else [GetMonitors])
                      @ rest
                    \<and> (\<forall>i. DeleteMonitor i \<notin> set rest))
             | Inl e \<Rightarrow>
                 r = Raised e \<and> new_calls w w' = [Login, GetMonitors] \<and> printed w' = printed w)"
  proof (cases "monitors_to_remove (fnmatch_fn env) (netloc_fn env) ignore_patterns (srv_monitors w)")
    case (Inl e)
    from sync_body_raises[OF rp Inl b] show ?thesis unfolding b prod.case Inl sum.case .
  next
    case (Inr to_remove)
    from sync_body_requests[OF rp Inr b] show ?thesis unfolding b prod.case Inr sum.case .
  qed
next
  fix w0 e w1
  assume a: "new_api w0 = (Done (), w)
        \<and> sync_body env traefik_servers docker_servers ignore_patterns reset_tags w = (Raised e, w1)"
  obtain r w' where s: "sync_monitors env traefik_servers docker_servers ignore_patterns reset_tags w0 = (r, w')"
    by (cases "sync_monitors env traefik_servers docker_servers ignore_patterns reset_tags w0")
  from fatal_error_exits[OF a[THEN conjunct1] a[THEN conjunct2] s]
  show "case sync_monitors env traefik_servers docker_servers ignore_patterns reset_tags w0 of
               (r, w') \<Rightarrow>
                 r = Exit 1 \<and> new_calls w1 w' = [Disconnect]
                 \<and> printed w' = printed w1 @ [FatalError e]"
    unfolding s prod.case .
qed


theorem prune_before_groups_witness:
  "[''*.internal''] \<noteq> [] \<and> reaches_pruning pruning_world
   \<and> (case sync_body docker_env [] [] [''*.internal''] False pruning_world of
          (r, w') \<Rightarrow>
            (case monitors_to_remove (fnmatch_fn docker_env) (netloc_fn docker_env)
                    [''*.internal''] (srv_monitors pruning_world) of
               Inr to_remove \<Rightarrow>
                 (\<exists>rest. new_calls pruning_world w' =
                    Login # GetMonitors
                      # map (\<lambda>m. DeleteMonitor (m_id m)) to_remove
                      @ (if to_remove = [] then [] else [GetMonitors])
                      @ rest
                    \<and> (\<forall>i. DeleteMonitor i \<notin> set rest))
             | Inl e \<Rightarrow>
                 r = Raised e \<and> new_calls pruning_world w' = [Login, GetMonitors]
                 \<and> printed w' = printed pruning_world))
   \<and> monitors_to_remove (fnmatch_fn docker_env) (netloc_fn docker_env) [''*.internal'']
        (srv_monitors pruning_world)
       = Inr [http_monitor 1 ''a.internal'', http_monitor 3 ''c.internal'']
   \<and> new_calls pruning_world (snd (sync_body docker_env [] [] [''*.internal''] False pruning_world))
       = [Login, GetMonitors, DeleteMonitor 1, DeleteMonitor 3, GetMonitors, GetTags,
          AddTag ''traefik'' ''#4299e1'']
   \<and> printed (snd (sync_body docker_env [] [] [''*.internal''] False pruning_world))
       = [RemoveFailed 1 ''timeout'', Removed 3, SyncComplete 0]
   \<and> map m_id (srv_monitors (snd (sync_body docker_env [] [] [''*.internal''] False pruning_world)))
       = [1, 2]
   \<and> monitors_to_remove (fnmatch_fn docker_env) (netloc_fn docker_env) [''*.internal'']
        (srv_monitors bracket_world)
       = Inl ''Invalid IPv6 URL''
   \<and> sync_monitors docker_env [] [] [''*.internal''] False bracket_world
       = (Exit 1, bracket_world\<lparr>trace := [UptimeKumaApi, Login, GetMonitors, Disconnect],
                                  printed := [FatalError ''Invalid IPv6 URL'']\<rparr>)"
proof -
  have h1: "[''*.internal''] \<noteq> ([] :: string list)" by simp
  have h2: "reaches_pruning pruning_world" by code_simp
  have v1: "monitors_to_remove (fnmatch_fn docker_env) (netloc_fn docker_env) [''*.internal'']
              (srv_monitors pruning_world)
       = Inr [http_monitor 1 ''a.internal'', http_monitor 3 ''c.internal'']"
    by code_simp
  have v2: "new_calls pruning_world (snd (sync_body docker_env [] [] [''*.internal''] False pruning_world))
       = [Login, GetMonitors, DeleteMonitor 1, DeleteMonitor 3, GetMonitors, GetTags,
          AddTag ''traefik'' ''#4299e1'']"
    by code_simp
  have v3: "printed (snd (sync_body docker_env [] [] [''*.internal''] False pruning_world))
       = [RemoveFailed 1 ''timeout'', Removed 3, SyncComplete 0]"
    by code_simp
  have v4: "map m_id (srv_monitors (snd (sync_body docker_env [] [] [''*.internal''] False pruning_world)))
       = [1, 2]"
    by code_simp
  have v5: "monitors_to_remove (fnmatch_fn docker_env) (netloc_fn docker_env) [''*.internal'']
              (srv_monitors bracket_world)
       = Inl ''Invalid IPv6 URL''"
    by code_simp
  have v6: "sync_monitors docker_env [] [] [''*.internal''] False bracket_world
       = (Exit 1, bracket_world\<lparr>trace := [UptimeKumaApi, Login, GetMonitors, Disconnect],
                                  printed := [FatalError ''Invalid IPv6 URL'']\<rparr>)"
    by code_simp
  note th = prune_before_groups[where w = pruning_world and env = docker_env
      and ignore_patterns = "[''*.internal'']" and traefik_servers = "[]" and docker_servers = "[]"
      and reset_tags = False and fnmatch = glob and urlparse_netloc = plain_netloc
      and monitors = "srv_monitors pruning_world"]
  from th[THEN conjunct2, THEN conjunct2, THEN conjunct1, THEN mp, OF h2]
  show ?thesis by (intro conjI h1 h2 v1 v2 v3 v4 v5 v6)
qed

theorem prune_by_name_counterexample:
  "should_ignore glob plain_netloc (m_name web_monitor) [''web''] = Inr True
   \<and> m_url web_monitor = []
   \<and> monitors_to_remove glob plain_netloc [''web''] (srv_monitors web_world) = Inr []
   \<and> trace (snd (sync_monitors docker_env [] [] [''web''] False web_world))
       = [UptimeKumaApi, Login, GetMonitors, GetTags, AddTag ''traefik'' ''#4299e1'', Disconnect]
   \<and> srv_monitors (snd (sync_monitors docker_env [] [] [''web''] False web_world)) = [web_monitor]"
  by code_simp

section \<open>Natural keys\<close>

lemma existing_urls_fold:
  "fold (\<lambda>monitor existing_urls.
           if m_url monitor \<noteq> [] then insert (m_url monitor) existing_urls else existing_urls)
        monitors E
   = E \<union> {m_url monitor | monitor. monitor \<in> set monitors \<and> m_url monitor \<noteq> []}"
  by (induction monitors arbitrary: E) auto

lemma existing_urls_of_eq:
  "existing_urls_of monitors = {m_url monitor | monitor. monitor \<in> set monitors \<and> m_url monitor \<noteq> []}"
  by (simp add: existing_urls_of_def existing_urls_fold)

lemma existing_docker_fold:
  "fold (\<lambda>monitor existing.
           if m_type monitor = DOCKER \<and> m_docker_host monitor = docker_host_id
           then insert (m_name monitor) existing else existing)
        monitors E
   = E \<union> {m_name monitor | monitor. monitor \<in> set monitors \<and> m_type monitor = DOCKER
                                   \<and> m_docker_host monitor = docker_host_id}"
  by (induction monitors arbitrary: E) auto

lemma existing_docker_monitors_eq:
  "existing_docker_monitors monitors docker_host_id =
     {m_name monitor | monitor. monitor \<in> set monitors \<and> m_type monitor = DOCKER
                                \<and> m_docker_host monitor = docker_host_id}"
  by (simp add: existing_docker_monitors_def existing_docker_fold)

lemma sound_process_docker_batch:
  assumes A: "\<And>c. \<not> changes_inventory c \<Longrightarrow> P c"
    and C: "\<And>name host. name \<in> set (missing_containers
                (extract_containers_from_docker (docker_net env) (g_url docker_info)) monitors host)
              \<Longrightarrow> P (AddMonitor (DockerConfig name name host))"
  shows "sound P False (process_docker env reset_tags monitors docker_info total_created)"
  unfolding process_docker_def Let_def
  by (auto intro!: sound_bnd sound_thn sound_for_each sound_resolver sound_docker_tag_phase
                   sound_create_docker_monitor sound_get_docker_host_id A C
           simp: changes_inventory_def is_reauth_call_def)

lemma sound_new_calls:
  assumes "sound P b m"
  shows "\<forall>c \<in> set (new_calls w (snd (m w))). P c"
proof -
  obtain r w' where m: "m w = (r, w')" by (cases "m w")
  from soundD[OF assms m] have "extends P w w'" by simp
  from extends_new_calls[OF this] show ?thesis by (simp add: m list_all_iff)
qed

text \<open>
  C5. A desired URL is in the creation batch of a proxy group exactly when no monitor
  of the snapshot has that very string as its URL; a desired container name is in the
  creation batch of a container group exactly when no monitor of the snapshot is a
  container monitor with that name under the group's runtime host (so the same name
  under another host does not count). With desired identifiers \<open>A\<close> and \<open>B\<close> and a
  snapshot in which some monitor's URL is \<open>A\<close> and none is \<open>B\<close>, the batch is \<open>B\<close>
  alone. The monitors a group asks the service to create are those of its batch: for a
  proxy group, the batch taken from the hosts the ignore filter kept, each under the
  name the library gives as its network location.
\<close>

theorem creation_batch_natural_key:
  "(h \<in> set (missing_hosts hosts (existing_urls_of monitors)) \<longleftrightarrow>
      h \<in> set hosts \<and> \<not> (\<exists>m \<in> set monitors. m_url m \<noteq> [] \<and> m_url m = h))
   \<and> (c \<in> set (missing_containers containers monitors docker_host_id) \<longleftrightarrow>
      c \<in> set containers \<and>
      \<not> (\<exists>m \<in> set monitors. m_type m = DOCKER \<and> m_name m = c \<and> m_docker_host m = docker_host_id))
   \<and> (A \<noteq> [] \<and> A \<noteq> B \<and> (\<exists>m \<in> set monitors. m_url m = A) \<and> (\<forall>m \<in> set monitors. m_url m \<noteq> B)
        \<longrightarrow> missing_hosts [A, B] (existing_urls_of monitors) = [B])
   \<and> (\<forall>rq \<in> set (new_calls w
                     (snd (process_traefik env ignore_patterns reset_tags monitors traefik_tag_id
                             traefik_info st w))).
         \<forall>cfg. rq = AddMonitor cfg \<longrightarrow>
           (\<exists>hosts hostname.
              filter_ignored (fnmatch_fn env) (netloc_fn env) ignore_patterns
                (extract_hosts_from_traefik (traefik_net env) (g_url traefik_info)) = Inr hosts
              \<and> (\<exists>host \<in> set (missing_hosts hosts (fst st)).
                    netloc_fn env host = Inr hostname \<and> cfg = http_config hostname host)))
   \<and> (\<forall>rq \<in> set (new_calls w
                     (snd (process_docker env reset_tags monitors docker_info total_created w))).
         \<forall>cfg. rq = AddMonitor cfg \<longrightarrow>
           (\<exists>name host.
              name \<in> set (missing_containers
                            (extract_containers_from_docker (docker_net env) (g_url docker_info))
                            monitors host)
              \<and> cfg = DockerConfig name name host))"
proof (intro conjI)
  let ?Pt = "\<lambda>rq. \<forall>cfg. rq = AddMonitor cfg \<longrightarrow>
           (\<exists>hosts hostname.
              filter_ignored (fnmatch_fn env) (netloc_fn env) ignore_patterns
                (extract_hosts_from_traefik (traefik_net env) (g_url traefik_info)) = Inr hosts
              \<and> (\<exists>host \<in> set (missing_hosts hosts (fst st)).
                    netloc_fn env host = Inr hostname \<and> cfg = http_config hostname host))"
  have "sound ?Pt True
          (process_traefik env ignore_patterns reset_tags monitors traefik_tag_id traefik_info st)"
    by (rule sound_process_traefik) (auto simp: changes_inventory_def)
  then show "\<forall>rq \<in> set (new_calls w
                     (snd (process_traefik env ignore_patterns reset_tags monitors traefik_tag_id
                             traefik_info st w))). ?Pt rq"
    by (rule sound_new_calls)
next
  let ?Pd = "\<lambda>rq. \<forall>cfg. rq = AddMonitor cfg \<longrightarrow>
           (\<exists>name host.
              name \<in> set (missing_containers
                            (extract_containers_from_docker (docker_net env) (g_url docker_info))
                            monitors host)
              \<and> cfg = DockerConfig name name host)"
  have "sound ?Pd False (process_docker env reset_tags monitors docker_info total_created)"
    by (rule sound_process_docker_batch) (auto simp: changes_inventory_def)
  then show "\<forall>rq \<in> set (new_calls w
                     (snd (process_docker env reset_tags monitors docker_info total_created w))). ?Pd rq"
    by (rule sound_new_calls)
qed (auto simp: missing_hosts_def missing_containers_def existing_urls_of_eq
                 existing_docker_monitors_eq)

theorem creation_batch_natural_key_witness:
  "(''https://a.example.com'' \<noteq> [] \<and> ''https://a.example.com'' \<noteq> ''https://b.example.com''
      \<and> (\<exists>m \<in> set [http_monitor 1 ''a.example.com'']. m_url m = ''https://a.example.com'')
      \<and> map m_url [http_monitor 1 ''a.example.com''] = [''https://a.example.com''])
   \<and> missing_hosts [''https://a.example.com'', ''https://b.example.com'']
        (existing_urls_of [http_monitor 1 ''a.example.com'']) = [''https://b.example.com'']
   \<and> missing_containers [''web''] [web_monitor] (Some 7) = []
   \<and> missing_containers [''web''] [web_monitor] (Some 8) = [''web'']
   \<and> new_calls empty_world
        (snd (process_traefik proxy_env [] False [] (Some 1)
                \<lparr>g_url = ''http://proxy'', g_group = ''edge''\<rparr> ({}, 0) empty_world))
       = [GetTags, AddTag ''edge'' ''#4299e1'', AddMonitor (http_config ''a.example.com'' ''https://a.example.com''),
          AddMonitorTag (Some 1) 2 [], AddMonitorTag (Some 1) 2 []]"
proof -
  have h: "''https://a.example.com'' \<noteq> [] \<and> ''https://a.example.com'' \<noteq> ''https://b.example.com''
      \<and> (\<exists>m \<in> set [http_monitor 1 ''a.example.com'']. m_url m = ''https://a.example.com'')
      \<and> (\<forall>m \<in> set [http_monitor 1 ''a.example.com'']. m_url m \<noteq> ''https://b.example.com'')"
    by (simp add: http_monitor_def)
  note th = creation_batch_natural_key[where A = "''https://a.example.com''"
      and B = "''https://b.example.com''" and monitors = "[http_monitor 1 ''a.example.com'']"]
  have b: "missing_hosts [''https://a.example.com'', ''https://b.example.com'']
        (existing_urls_of [http_monitor 1 ''a.example.com'']) = [''https://b.example.com'']"
    by (rule th[THEN conjunct2, THEN conjunct2, THEN conjunct1, THEN mp, OF h])
  have c1: "missing_containers [''web''] [web_monitor] (Some 7) = []" by code_simp
  have c2: "missing_containers [''web''] [web_monitor] (Some 8) = [''web'']" by code_simp
  have c3: "new_calls empty_world
        (snd (process_traefik proxy_env [] False [] (Some 1)
                \<lparr>g_url = ''http://proxy'', g_group = ''edge''\<rparr> ({}, 0) empty_world))
       = [GetTags, AddTag ''edge'' ''#4299e1'', AddMonitor (http_config ''a.example.com'' ''https://a.example.com''),
          AddMonitorTag (Some 1) 2 [], AddMonitorTag (Some 1) 2 []]"
    by code_simp
  have u: "map m_url [http_monitor 1 ''a.example.com''] = [''https://a.example.com'']"
    by (simp add: http_monitor_def)
  show ?thesis by (intro conjI h[THEN conjunct1] h[THEN conjunct2, THEN conjunct1]
      h[THEN conjunct2, THEN conjunct2, THEN conjunct1] u b c1 c2 c3)
qed

section \<open>Ignore patterns\<close>

lemma any_pattern_matches_iff:
  "any_pattern_matches fnmatch hostname url patterns \<longleftrightarrow>
     (\<exists>p \<in> set patterns. strip p \<noteq> [] \<and>
        (fnmatch (lower hostname) (lower (strip p)) \<or> fnmatch (lower url) (lower (strip p))))"
  by (induction patterns) (auto simp: Let_def)

lemma should_ignore_eq:
  "should_ignore fnmatch urlparse_netloc url ignore_patterns =
     (if ignore_patterns = [] then Inr False
      else case (if startswith url ''http://'' \<or> startswith url ''https://''
                 then urlparse_netloc url else Inr url) of
             Inl e \<Rightarrow> Inl e
           | Inr hostname \<Rightarrow>
               Inr (\<exists>p \<in> set ignore_patterns. strip p \<noteq> [] \<and>
                      (fnmatch (lower hostname) (lower (strip p))
                       \<or> fnmatch (lower url) (lower (strip p)))))"
  by (simp add: should_ignore_def any_pattern_matches_iff split: sum.splits)

lemma filter_hosts_Inr:
  "filter_hosts fnmatch urlparse_netloc ignore_patterns hosts = Inr kept \<Longrightarrow>
     kept = filter (\<lambda>h. should_ignore fnmatch urlparse_netloc h ignore_patterns = Inr False) hosts
     \<and> (\<forall>h \<in> set hosts. \<exists>b. should_ignore fnmatch urlparse_netloc h ignore_patterns = Inr b)"
proof (induction hosts arbitrary: kept)
  case Nil
  then show ?case by simp
next
  case (Cons h hs)
  from Cons.prems obtain b rest where
    b: "should_ignore fnmatch urlparse_netloc h ignore_patterns = Inr b"
    and r: "filter_hosts fnmatch urlparse_netloc ignore_patterns hs = Inr rest"
    and k: "kept = (if b then rest else h # rest)"
    by (auto split: sum.splits)
  from Cons.IH[OF r] b k show ?case by auto
qed

lemma filter_hosts_Inl:
  "filter_hosts fnmatch urlparse_netloc ignore_patterns hosts = Inl e \<Longrightarrow>
     \<exists>h \<in> set hosts. should_ignore fnmatch urlparse_netloc h ignore_patterns = Inl e"
proof (induction hosts)
  case Nil
  then show ?case by simp
next
  case (Cons h hs)
  show ?case
  proof (cases "should_ignore fnmatch urlparse_netloc h ignore_patterns")
    case (Inl e')
    with Cons.prems show ?thesis by simp
  next
    case (Inr b)
    with Cons.prems have "filter_hosts fnmatch urlparse_netloc ignore_patterns hs = Inl e"
      by (simp split: sum.splits)
    from Cons.IH[OF this] show ?thesis by auto
  qed
qed

lemma filter_ignored_Inr:
  assumes "filter_ignored fnmatch urlparse_netloc ignore_patterns hosts = Inr kept"
  shows "kept = filter (\<lambda>h. should_ignore fnmatch urlparse_netloc h ignore_patterns = Inr False) hosts"
proof (cases "ignore_patterns = []")
  case True
  with assms show ?thesis by (simp add: filter_ignored_def should_ignore_def)
next
  case False
  with assms show ?thesis by (simp add: filter_ignored_def filter_hosts_Inr)
qed

lemma filter_ignored_Inl:
  assumes "filter_ignored fnmatch urlparse_netloc ignore_patterns hosts = Inl e"
  shows "ignore_patterns \<noteq> []
         \<and> (\<exists>h \<in> set hosts. should_ignore fnmatch urlparse_netloc h ignore_patterns = Inl e)"
  using assms
  by (cases "ignore_patterns = []") (auto simp: filter_ignored_def dest: filter_hosts_Inl)

lemma process_traefik_raises:
  assumes "extract_hosts_from_traefik (traefik_net env) (g_url traefik_info) \<noteq> []"
    and "filter_ignored (fnmatch_fn env) (netloc_fn env) ignore_patterns
           (extract_hosts_from_traefik (traefik_net env) (g_url traefik_info)) = Inl e"
  shows "process_traefik env ignore_patterns reset_tags monitors traefik_tag_id traefik_info st w
           = (Raised e, w)"
  using assms by (simp add: process_traefik_def Let_def raise_apply)

text \<open>
  C6, as the code has it. Unless the library rejects the URL, an identifier matches the
  ignore patterns exactly when some pattern of the list, once stripped of surrounding
  whitespace, is non-empty and matches, both sides in lower case, the identifier's
  host component (what the library gives as the network location of an identifier
  that starts with \<open>http://\<close> or \<open>https://\<close>, otherwise the identifier itself) or the
  whole identifier; with patterns configured, the library's rejection of such a URL
  is the outcome of the test. The hosts found at a proxy that match are dropped before
  the creation phase: the hosts kept are those for which the test returns false, no
  host of a creation batch matches, and no request of a run creates an HTTP monitor
  for a URL that matches. When the test fails on a host found at a proxy, the group
  raises that error and has sent nothing. Container names are not filtered.
\<close>

theorem ignored_hosts_never_created:
  "should_ignore fnmatch urlparse_netloc url ignore_patterns =
     (if ignore_patterns = [] then Inr False
      else case (if startswith url ''http://'' \<or> startswith url ''https://''
                 then urlparse_netloc url else Inr url) of
             Inl e \<Rightarrow> Inl e
           | Inr hostname \<Rightarrow>
               Inr (\<exists>p \<in> set ignore_patterns. strip p \<noteq> [] \<and>
                      (fnmatch (lower hostname) (lower (strip p))
                       \<or> fnmatch (lower url) (lower (strip p)))))
   \<and> (case filter_ignored fnmatch urlparse_netloc ignore_patterns hosts of
         Inr kept \<Rightarrow>
           kept = filter (\<lambda>h. should_ignore fnmatch urlparse_netloc h ignore_patterns = Inr False)
                    hosts
           \<and> (\<forall>h \<in> set (missing_hosts kept existing_urls).
                 should_ignore fnmatch urlparse_netloc h ignore_patterns = Inr False)
       | Inl e \<Rightarrow>
           ignore_patterns \<noteq> []
           \<and> (\<exists>h \<in> set hosts. should_ignore fnmatch urlparse_netloc h ignore_patterns = Inl e))
   \<and> (\<forall>e. extract_hosts_from_traefik (traefik_net env) (g_url traefik_info) \<noteq> []
           \<and> filter_ignored (fnmatch_fn env) (netloc_fn env) ignore_patterns
               (extract_hosts_from_traefik (traefik_net env) (g_url traefik_info)) = Inl e
         \<longrightarrow> process_traefik env ignore_patterns reset_tags monitors traefik_tag_id traefik_info
               st w = (Raised e, w))
   \<and> (\<forall>rq \<in> set (new_calls w
                     (snd (sync_groups env traefik_servers docker_servers ignore_patterns
                             reset_tags monitors w))).
         \<forall>name u method interval retry maxretries codes redirects timeout.
           rq = AddMonitor (HttpConfig name u method interval retry maxretries codes redirects timeout)
           \<longrightarrow> should_ignore (fnmatch_fn env) (netloc_fn env) u ignore_patterns = Inr False)"
proof (intro conjI)
  show "should_ignore fnmatch urlparse_netloc url ignore_patterns =
     (if ignore_patterns = [] then Inr False
      else case (if startswith url ''http://'' \<or> startswith url ''https://''
                 then urlparse_netloc url else Inr url) of
             Inl e \<Rightarrow> Inl e
           | Inr hostname \<Rightarrow>
               Inr (\<exists>p \<in> set ignore_patterns. strip p \<noteq> [] \<and>
                      (fnmatch (lower hostname) (lower (strip p))
                       \<or> fnmatch (lower url) (lower (strip p)))))"
    by (rule should_ignore_eq)
next
  show "case filter_ignored fnmatch urlparse_netloc ignore_patterns hosts of
         Inr kept \<Rightarrow>
           kept = filter (\<lambda>h. should_ignore fnmatch urlparse_netloc h ignore_patterns = Inr False)
                    hosts
           \<and> (\<forall>h \<in> set (missing_hosts kept existing_urls).
                 should_ignore fnmatch urlparse_netloc h ignore_patterns = Inr False)
       | Inl e \<Rightarrow>
           ignore_patterns \<noteq> []
           \<and> (\<exists>h \<in> set hosts. should_ignore fnmatch urlparse_netloc h ignore_patterns = Inl e)"
  proof (cases "filter_ignored fnmatch urlparse_netloc ignore_patterns hosts")
    case (Inl e)
    from filter_ignored_Inl[OF this] show ?thesis by (simp add: Inl)
  next
    case (Inr kept)
    from filter_ignored_Inr[OF this] show ?thesis by (simp add: Inr missing_hosts_def)
  qed
next
  show "\<forall>e. extract_hosts_from_traefik (traefik_net env) (g_url traefik_info) \<noteq> []
           \<and> filter_ignored (fnmatch_fn env) (netloc_fn env) ignore_patterns
               (extract_hosts_from_traefik (traefik_net env) (g_url traefik_info)) = Inl e
         \<longrightarrow> process_traefik env ignore_patterns reset_tags monitors traefik_tag_id traefik_info
               st w = (Raised e, w)"
    by (intro allI impI) (simp add: process_traefik_raises)
next
  let ?P = "\<lambda>rq. \<forall>name u method interval retry maxretries codes redirects timeout.
           rq = AddMonitor (HttpConfig name u method interval retry maxretries codes redirects timeout)
           \<longrightarrow> should_ignore (fnmatch_fn env) (netloc_fn env) u ignore_patterns = Inr False"
  have "sound ?P True
          (sync_groups env traefik_servers docker_servers ignore_patterns reset_tags monitors)"
  proof (rule sound_sync_groups)
    fix c assume "\<not> changes_inventory c"
    then show "?P c" by (auto simp: changes_inventory_def)
  next
    fix h hosts hostname g
    assume "filter_ignored (fnmatch_fn env) (netloc_fn env) ignore_patterns
              (extract_hosts_from_traefik (traefik_net env) (g_url g)) = Inr hosts"
      and "h \<in> set hosts"
    then have "should_ignore (fnmatch_fn env) (netloc_fn env) h ignore_patterns = Inr False"
      by (auto dest: filter_ignored_Inr)
    then show "?P (AddMonitor (http_config hostname h))" by (simp add: http_config_def)
  next
    fix name host
    show "?P (AddMonitor (DockerConfig name name host))" by simp
  qed
  then show "\<forall>rq \<in> set (new_calls w
                     (snd (sync_groups env traefik_servers docker_servers ignore_patterns
                             reset_tags monitors w))). ?P rq"
    by (rule sound_new_calls)
qed


theorem ignored_hosts_never_created_witness:
  "should_ignore glob plain_netloc ''https://a.example.com'' ['' A.Example.COM ''] = Inr True
   \<and> extract_hosts_from_traefik (traefik_net proxy_env) ''http://proxy'' = [''https://a.example.com'']
   \<and> filter_ignored glob plain_netloc ['' A.Example.COM ''] [''https://a.example.com''] = Inr []
   \<and> new_calls empty_world
        (snd (sync_groups proxy_env [\<lparr>g_url = ''http://proxy'', g_group = ''edge''\<rparr>] []
                ['' A.Example.COM ''] False [] empty_world))
       = [GetTags, AddTag ''traefik'' ''#4299e1'', GetTags, AddTag ''edge'' ''#4299e1'']
   \<and> new_calls empty_world
        (snd (sync_groups proxy_env [\<lparr>g_url = ''http://proxy'', g_group = ''edge''\<rparr>] []
                [''b.*''] False [] empty_world))
       = [GetTags, AddTag ''traefik'' ''#4299e1'', GetTags, AddTag ''edge'' ''#4299e1'',
          AddMonitor (http_config ''a.example.com'' ''https://a.example.com''),
          AddMonitorTag (Some 2) 3 [], AddMonitorTag (Some 1) 3 []]
   \<and> should_ignore glob plain_netloc (''https://a.exa'' @ [CHR 0x09] @ ''mple.com'')
        [''a.example.com''] = Inr True
   \<and> should_ignore glob plain_netloc ''https://[abc'' [''*.internal''] = Inl ''Invalid IPv6 URL''"
proof -
  note th = ignored_hosts_never_created[where fnmatch = glob and urlparse_netloc = plain_netloc
      and url = "''https://a.example.com''"
      and ignore_patterns = "['' A.Example.COM '']" and hosts = "[''https://a.example.com'']"
      and existing_urls = "{}" and w = empty_world and env = proxy_env
      and traefik_servers = "[\<lparr>g_url = ''http://proxy'', g_group = ''edge''\<rparr>]"
      and docker_servers = "[]" and reset_tags = False and monitors = "[]"]
  have p: "(if ['' A.Example.COM ''] = [] then Inr False
      else case (if startswith ''https://a.example.com'' ''http://''
                    \<or> startswith ''https://a.example.com'' ''https://''
                 then plain_netloc ''https://a.example.com'' else Inr ''https://a.example.com'') of
             Inl e \<Rightarrow> Inl e
           | Inr hostname \<Rightarrow>
               Inr (\<exists>p \<in> set ['' A.Example.COM '']. strip p \<noteq> [] \<and>
                      (glob (lower hostname) (lower (strip p))
                       \<or> glob (lower ''https://a.example.com'') (lower (strip p)))))
           = (Inr True :: string + bool)"
    by code_simp
  have a: "should_ignore glob plain_netloc ''https://a.example.com'' ['' A.Example.COM ''] = Inr True"
    using th[THEN conjunct1] p by simp
  have e: "extract_hosts_from_traefik (traefik_net proxy_env) ''http://proxy'' = [''https://a.example.com'']"
    by code_simp
  have m: "filter_ignored glob plain_netloc ['' A.Example.COM ''] [''https://a.example.com''] = Inr []"
    by code_simp
  have v1: "new_calls empty_world
        (snd (sync_groups proxy_env [\<lparr>g_url = ''http://proxy'', g_group = ''edge''\<rparr>] []
                ['' A.Example.COM ''] False [] empty_world))
       = [GetTags, AddTag ''traefik'' ''#4299e1'', GetTags, AddTag ''edge'' ''#4299e1'']"
    by code_simp
  have v2: "new_calls empty_world
        (snd (sync_groups proxy_env [\<lparr>g_url = ''http://proxy'', g_group = ''edge''\<rparr>] []
                [''b.*''] False [] empty_world))
       = [GetTags, AddTag ''traefik'' ''#4299e1'', GetTags, AddTag ''edge'' ''#4299e1'',
          AddMonitor (http_config ''a.example.com'' ''https://a.example.com''),
          AddMonitorTag (Some 2) 3 [], AddMonitorTag (Some 1) 3 []]"
    by code_simp
  have v3: "should_ignore glob plain_netloc (''https://a.exa'' @ [CHR 0x09] @ ''mple.com'')
        [''a.example.com''] = Inr True"
    by code_simp
  have v4: "should_ignore glob plain_netloc ''https://[abc'' [''*.internal''] = Inl ''Invalid IPv6 URL''"
    by code_simp
  show ?thesis
    by (intro conjI a e m v1 v2 v3 v4)
qed

theorem ignored_container_created_counterexample:
  "should_ignore glob plain_netloc ''web'' [''web''] = Inr True
   \<and> extract_containers_from_docker (docker_net docker_env) ''tcp://d1:2375'' = [''web'']
   \<and> trace (snd (sync_monitors docker_env [] [\<lparr>g_url = ''tcp://d1:2375'', g_group = ''prod''\<rparr>]
                    [''web''] False docker_world))
       = [UptimeKumaApi, Login, GetMonitors, GetTags, AddTag ''traefik'' ''#4299e1'', GetTags,
          AddTag ''prod'' ''#4299e1'', GetTags, AddTag ''docker'' ''#4299e1'', GetDockerHosts,
          AddMonitor (DockerConfig ''web'' ''web'' (Some 7)),
          AddMonitorTag (Some 2) 4 [], AddMonitorTag (Some 3) 4 [], Disconnect]
   \<and> should_ignore glob plain_netloc ''web'' ['' web ''] = Inr True
   \<and> \<not> glob (lower ''web'') (lower '' web '')"
  by code_simp

section \<open>Expired sessions\<close>





















section \<open>Runs that repeat work\<close>

text \<open>
  C2, at an input where the code creates twice. Two container groups with the same
  label resolve to the same runtime host; both run \<open>web\<close>. The run, in which no
  request fails, creates the monitor \<open>(web, 7)\<close> for the first group and again for
  the second: the container part of \<open>sync_monitors\<close> takes the existing names from the
  listing made before the groups and records no creation. The proxy part, which adds
  each created URL to \<open>existing_urls\<close>, creates the host shared by two proxy groups
  once.
\<close>

theorem docker_identifier_created_twice:
  "fst (sync_monitors docker_env [] docker_groups [] False docker_world) = Done ()
   \<and> filter changes_inventory
        (trace (snd (sync_monitors docker_env [] docker_groups [] False docker_world)))
       = [AddMonitor (DockerConfig ''web'' ''web'' (Some 7)),
          AddMonitor (DockerConfig ''web'' ''web'' (Some 7))]
   \<and> map (\<lambda>m. (m_id m, m_name m, m_docker_host m))
        (srv_monitors (snd (sync_monitors docker_env [] docker_groups [] False docker_world)))
       = [(4, ''web'', Some 7), (5, ''web'', Some 7)]
   \<and> filter changes_inventory
        (trace (snd (sync_monitors proxy_env proxy_groups [] [] False empty_world)))
       = [AddMonitor (http_config ''a.example.com'' ''https://a.example.com'')]"
  by code_simp

text \<open>
  C4, at an input where the second run changes tags. Two proxy groups with labels
  \<open>A\<close> and \<open>B\<close> serve the same host, and the service starts empty. In the first run
  (additive policy, no request fails) group \<open>A\<close> creates the monitor with the tags
  \<open>A\<close> and \<open>traefik\<close>; for group \<open>B\<close> the host is in \<open>existing_urls\<close> but its
  monitor is not in the listing made before the groups, so tag \<open>B\<close> is not added. The
  second run, with the same sources, creates nothing but sends \<open>add_monitor_tag\<close> for
  tag \<open>B\<close>.
\<close>

theorem second_run_adds_tag:
  "fst (sync_monitors proxy_env proxy_groups [] [] False empty_world) = Done ()
   \<and> trace after_first_run
       = [UptimeKumaApi, Login, GetMonitors, GetTags, AddTag ''traefik'' ''#4299e1'', GetTags,
          AddTag ''A'' ''#4299e1'', AddMonitor (http_config ''a.example.com'' ''https://a.example.com''),
          AddMonitorTag (Some 2) 3 [], AddMonitorTag (Some 1) 3 [], GetTags,
          AddTag ''B'' ''#4299e1'', Disconnect]
   \<and> faults after_first_run = []
   \<and> fst (sync_monitors proxy_env proxy_groups [] [] False after_first_run) = Done ()
   \<and> new_calls after_first_run
        (snd (sync_monitors proxy_env proxy_groups [] [] False after_first_run))
       = [UptimeKumaApi, Login, GetMonitors, GetTags, GetTags, GetTags,
          AddMonitorTag (Some 4) 3 [], Disconnect]"
  by code_simp

end
